theory Spec2Isabelle
  imports Complex_Main
begin

section \<open>Errors\<close>

text \<open>
  Every failure of the source is \<^verbatim>\<open>throw new Error(message)\<close>; the model keeps the
  message, and a function that can throw returns \<open>error + 'a\<close> with \<open>Inl\<close> for the throw.
\<close>

datatype error = Error string

section \<open>currency.enum.ts\<close>

definition CurrencyEnum :: "string list" where
  "CurrencyEnum =
    [''PLN'', ''EUR'', ''USD'', ''GBP'', ''CHF'', ''CZK'', ''DKK'', ''SEK'', ''NOK'', ''HUF'',
     ''RON'', ''BGN'', ''UAH'', ''TRY'', ''JPY'', ''CNY'', ''AUD'', ''CAD'', ''NZD'', ''ZAR'',
     ''BRL'', ''MXN'', ''INR'', ''KRW'', ''SGD'', ''HKD'', ''THB'', ''IDR'', ''MYR'', ''PHP'',
     ''SAR'', ''KWD'', ''QAR'', ''OMR'', ''AED'', ''BHD'', ''IQD'', ''SYP'', ''EGP'']"

text \<open>
  A currency code is a string at run time; \<^verbatim>\<open>null\<close>, \<^verbatim>\<open>undefined\<close> and any other value
  outside the enumeration are represented by a string that is not in the list.
\<close>

definition isValidCurrencyCode :: "string \<Rightarrow> bool" where
  "isValidCurrencyCode v = (v \<in> set CurrencyEnum)"

definition validateCurrencyCode :: "string \<Rightarrow> error + unit" where
  "validateCurrencyCode currencyCode =
     (if \<not> isValidCurrencyCode currencyCode
      then Inl (Error (''Invalid currency code: '' @ currencyCode))
      else Inr ())"

section \<open>Native numbers\<close>

text \<open>
  A JavaScript number is an IEEE 754 binary64 value: NaN, an infinity, a signed zero, or
  \<open>Num m x\<close> of value \<open>m * 2 ^ x\<close> with \<open>m\<close> odd (the sign is the sign of \<open>m\<close>). All
  arithmetic on them is integer arithmetic.
\<close>

datatype number = NNaN | Infinity bool | Zero bool | Num int int

definition pow2 :: "int \<Rightarrow> rat" where
  "pow2 k = (if 0 \<le> k then 2 ^ nat k else 1 / 2 ^ nat (- k))"

definition pow10 :: "int \<Rightarrow> rat" where
  "pow10 k = (if 0 \<le> k then 10 ^ nat k else 1 / 10 ^ nat (- k))"


function stripTwos :: "int \<Rightarrow> int \<Rightarrow> int \<times> int" where
  "stripTwos m x = (if m = 0 \<or> odd m then (m, x) else stripTwos (m div 2) (x + 1))"
  by pat_completeness auto
termination
  by (relation "measure (\<lambda>(m, x). nat \<bar>m\<bar>)") auto

declare stripTwos.simps [simp del]

text \<open>The number of magnitude \<open>n * 2 ^ sh\<close>: a zero, an infinity from \<open>2 ^ 1024\<close> on.\<close>

definition mkNumber :: "bool \<Rightarrow> int \<Rightarrow> int \<Rightarrow> number" where
  "mkNumber neg n sh =
     (if n = 0 then Zero neg
      else if 0 \<le> sh \<and> 2 ^ 1024 \<le> n * 2 ^ nat sh then Infinity neg
      else (case stripTwos n sh of (m, x) \<Rightarrow> Num (if neg then - m else m) x))"

text \<open>
  The binary exponent of the positive fraction \<open>p / q\<close>, not below \<open>-1022\<close> (where the
  subnormal numbers begin).
\<close>

function expUp :: "int \<Rightarrow> int \<Rightarrow> int" where
  "expUp p q = (if q \<le> 0 \<or> p < 2 * q then 0 else expUp p (2 * q) + 1)"
  by pat_completeness auto
termination
  by (relation "measure (\<lambda>(p, q). nat (p - q))") auto

declare expUp.simps [simp del]

function expDown :: "int \<Rightarrow> int \<Rightarrow> int \<Rightarrow> int" where
  "expDown e p q = (if q \<le> p \<or> e \<le> - 1022 then e else expDown (e - 1) (2 * p) q)"
  by pat_completeness auto
termination
  by (relation "measure (\<lambda>(e, p, q). nat (e + 1022))") auto

declare expDown.simps [simp del]

definition binaryExponent :: "int \<Rightarrow> int \<Rightarrow> int" where
  "binaryExponent p q = (if q \<le> p then expUp p q else expDown 0 p q)"

definition roundTiesToEven :: "int \<Rightarrow> int \<Rightarrow> int" where
  "roundTiesToEven num den =
     (let n = num div den; r = num mod den
      in if 2 * r < den then n else if den < 2 * r then n + 1
         else if even n then n else n + 1)"

text \<open>
  Conversion of the exact value \<open>p / q\<close> (\<open>0 \<le> p\<close>, \<open>0 < q\<close>) with sign \<open>neg\<close> to the nearest
  number, ties to even: 53 significant bits, the spacing \<open>2 ^ -1074\<close> below \<open>2 ^ -1022\<close>.
\<close>

definition fracToDouble :: "bool \<Rightarrow> int \<Rightarrow> int \<Rightarrow> number" where
  "fracToDouble neg p q =
     (if p = 0 then Zero neg
      else
        let sh = binaryExponent p q - 52;
            n = (if 0 \<le> sh then roundTiesToEven p (q * 2 ^ nat sh)
                 else roundTiesToEven (p * 2 ^ nat (- sh)) q)
        in mkNumber neg n sh)"

text \<open>
  \<open>Num m x\<close> is a number when converting its value gives it back: \<open>m\<close> is odd and below
  \<open>2 ^ 53\<close> in magnitude, and \<open>x\<close> is in the exponent range.
\<close>

fun wellFormedNumber :: "number \<Rightarrow> bool" where
  "wellFormedNumber (Num m x) =
     ((if 0 \<le> x then fracToDouble (m < 0) (\<bar>m\<bar> * 2 ^ nat x) 1
       else fracToDouble (m < 0) \<bar>m\<bar> (2 ^ nat (- x))) = Num m x)"
| "wellFormedNumber _ = True"

fun js_isNaN :: "number \<Rightarrow> bool" where
  "js_isNaN NNaN = True"
| "js_isNaN _ = False"

fun js_isFinite :: "number \<Rightarrow> bool" where
  "js_isFinite NNaN = False"
| "js_isFinite (Infinity neg) = False"
| "js_isFinite _ = True"

fun Number_isInteger :: "number \<Rightarrow> bool" where
  "Number_isInteger (Zero neg) = True"
| "Number_isInteger (Num m x) = (0 \<le> x \<or> m mod 2 ^ nat (- x) = 0)"
| "Number_isInteger _ = False"

text \<open>
  \<^verbatim>\<open>Math.round\<close>: the integral number closest to the argument, the one closer to
  \<open>+\<infinity>\<close> on a tie; an argument in \<open>[-0.5, 0)\<close> gives negative zero.
\<close>

fun Math_round :: "number \<Rightarrow> number" where
  "Math_round (Num m x) =
     (if 0 \<le> x then Num m x
      else
        let r = (2 * m + 2 ^ nat (- x)) div 2 ^ (nat (- x) + 1)
        in if r = 0 then Zero (m < 0) else mkNumber (r < 0) \<bar>r\<bar> 0)"
| "Math_round n = n"

section \<open>The decimal library (bignumber.js)\<close>

text \<open>
  \<^verbatim>\<open>BigNumber\<close> is the arbitrary-precision decimal of the external library the repository
  builds on. Its values are NaN, the two infinities, and the finite decimals
  \<open>BFinite neg c e\<close> of value \<open>\<plusminus> c * 10 ^ e\<close>, where the coefficient \<open>c\<close> has no trailing
  zero digit and zero is \<open>c = 0\<close>, \<open>e = 0\<close> with its sign kept (the library stores the sign,
  the digits of \<open>c\<close> and the exponent of the leading digit). The operations below follow the
  library at its default settings \<^verbatim>\<open>ROUNDING_MODE = ROUND_HALF_UP\<close> and
  \<^verbatim>\<open>EXPONENTIAL_AT = [-7, 20]\<close>, which the repository never changes;
  \<^verbatim>\<open>DECIMAL_PLACES\<close>, which the repository reads and its tests set, is the field of
  \<open>config\<close>. The exponent limit \<open>\<plusminus>1e9\<close> of the library is not modelled.
\<close>

datatype BigNumber = BNaN | BInfinity bool | BFinite bool nat int

record config =
  DECIMAL_PLACES :: nat

definition defaultConfig :: config where
  "defaultConfig = \<lparr> DECIMAL_PLACES = 20 \<rparr>"

function stripZeros :: "nat \<Rightarrow> int \<Rightarrow> nat \<times> int" where
  "stripZeros c e =
     (if c = 0 then (0, 0)
      else if c mod 10 = 0 then stripZeros (c div 10) (e + 1)
      else (c, e))"
  by pat_completeness auto
termination
  by (relation "measure fst") auto

declare stripZeros.simps [simp del]

definition mkFinite :: "bool \<Rightarrow> nat \<Rightarrow> int \<Rightarrow> BigNumber" where
  "mkFinite neg c e = (case stripZeros c e of (c', e') \<Rightarrow> BFinite neg c' e')"

fun BN_value :: "BigNumber \<Rightarrow> rat" where
  "BN_value (BFinite neg c e) = (if neg then - 1 else 1) * of_nat c * pow10 e"
| "BN_value _ = 0"

fun BN_isNaN :: "BigNumber \<Rightarrow> bool" where
  "BN_isNaN BNaN = True"
| "BN_isNaN _ = False"

fun BN_isFinite :: "BigNumber \<Rightarrow> bool" where
  "BN_isFinite (BFinite neg c e) = True"
| "BN_isFinite _ = False"

fun BN_isZero :: "BigNumber \<Rightarrow> bool" where
  "BN_isZero (BFinite neg c e) = (c = 0)"
| "BN_isZero _ = False"

fun BN_isNegative :: "BigNumber \<Rightarrow> bool" where
  "BN_isNegative (BFinite neg c e) = neg"
| "BN_isNegative (BInfinity neg) = neg"
| "BN_isNegative BNaN = False"

fun BN_negated :: "BigNumber \<Rightarrow> BigNumber" where
  "BN_negated (BFinite neg c e) = BFinite (\<not> neg) c e"
| "BN_negated (BInfinity neg) = BInfinity (\<not> neg)"
| "BN_negated BNaN = BNaN"

subsection \<open>Comparison\<close>

text \<open>The library's \<^verbatim>\<open>compare\<close>: \<^verbatim>\<open>null\<close> when either side is NaN, else -1, 0 or 1.\<close>

fun BN_rank :: "BigNumber \<Rightarrow> int" where
  "BN_rank (BInfinity neg) = (if neg then - 1 else 1)"
| "BN_rank _ = 0"

definition compare :: "BigNumber \<Rightarrow> BigNumber \<Rightarrow> int option" where
  "compare x y =
     (if BN_isNaN x \<or> BN_isNaN y then None
      else if BN_rank x < BN_rank y then Some (- 1)
      else if BN_rank y < BN_rank x then Some 1
      else if BN_value x < BN_value y then Some (- 1)
      else if BN_value y < BN_value x then Some 1
      else Some 0)"

definition BN_isEqualTo :: "BigNumber \<Rightarrow> BigNumber \<Rightarrow> bool" where
  "BN_isEqualTo x y = (compare x y = Some 0)"

definition BN_isLessThan :: "BigNumber \<Rightarrow> BigNumber \<Rightarrow> bool" where
  "BN_isLessThan x y = (compare x y = Some (- 1))"

definition BN_isLessThanOrEqualTo :: "BigNumber \<Rightarrow> BigNumber \<Rightarrow> bool" where
  "BN_isLessThanOrEqualTo x y = (compare x y = Some (- 1) \<or> compare x y = Some 0)"

definition BN_isGreaterThan :: "BigNumber \<Rightarrow> BigNumber \<Rightarrow> bool" where
  "BN_isGreaterThan x y = (compare x y = Some 1)"

definition BN_isGreaterThanOrEqualTo :: "BigNumber \<Rightarrow> BigNumber \<Rightarrow> bool" where
  "BN_isGreaterThanOrEqualTo x y = (compare x y = Some 1 \<or> compare x y = Some 0)"

subsection \<open>Arithmetic\<close>

text \<open>Sum and difference of two operands of the same sign \<open>neg\<close>.\<close>

fun plusSameSign :: "BigNumber \<Rightarrow> BigNumber \<Rightarrow> BigNumber" where
  "plusSameSign (BFinite neg c1 e1) (BFinite neg2 c2 e2) =
     (let e = min e1 e2
      in mkFinite neg (c1 * 10 ^ nat (e1 - e) + c2 * 10 ^ nat (e2 - e)) e)"
| "plusSameSign (BInfinity neg) y = BInfinity neg"
| "plusSameSign x (BInfinity neg) = BInfinity neg"
| "plusSameSign x y = BNaN"

fun minusSameSign :: "BigNumber \<Rightarrow> BigNumber \<Rightarrow> BigNumber" where
  "minusSameSign (BFinite neg c1 e1) (BFinite neg2 c2 e2) =
     (let e = min e1 e2; a1 = c1 * 10 ^ nat (e1 - e); a2 = c2 * 10 ^ nat (e2 - e)
      in if a1 = a2 then BFinite False 0 0
         else if a2 < a1 then mkFinite neg (a1 - a2) e
         else mkFinite (\<not> neg) (a2 - a1) e)"
| "minusSameSign (BFinite neg c e) (BInfinity neg2) = BInfinity (\<not> neg2)"
| "minusSameSign (BInfinity neg) (BFinite neg2 c e) = BInfinity neg"
| "minusSameSign x y = BNaN"

definition BN_plus :: "BigNumber \<Rightarrow> BigNumber \<Rightarrow> BigNumber" where
  "BN_plus x y =
     (if BN_isNaN x \<or> BN_isNaN y then BNaN
      else if BN_isNegative x \<noteq> BN_isNegative y then minusSameSign x (BN_negated y)
      else plusSameSign x y)"

definition BN_minus :: "BigNumber \<Rightarrow> BigNumber \<Rightarrow> BigNumber" where
  "BN_minus x y =
     (if BN_isNaN x \<or> BN_isNaN y then BNaN
      else if BN_isNegative x \<noteq> BN_isNegative y then plusSameSign x (BN_negated y)
      else minusSameSign x y)"

fun BN_times :: "BigNumber \<Rightarrow> BigNumber \<Rightarrow> BigNumber" where
  "BN_times BNaN y = BNaN"
| "BN_times x BNaN = BNaN"
| "BN_times (BFinite n1 c1 e1) (BFinite n2 c2 e2) = mkFinite (n1 \<noteq> n2) (c1 * c2) (e1 + e2)"
| "BN_times (BInfinity n1) (BInfinity n2) = BInfinity (n1 \<noteq> n2)"
| "BN_times (BInfinity n1) (BFinite n2 c e) = (if c = 0 then BNaN else BInfinity (n1 \<noteq> n2))"
| "BN_times (BFinite n1 c e) (BInfinity n2) = (if c = 0 then BNaN else BInfinity (n1 \<noteq> n2))"

text \<open>
  \<^verbatim>\<open>dividedBy\<close> rounds the quotient to \<^verbatim>\<open>DECIMAL_PLACES\<close> fractional digits, half up on
  the magnitude.
\<close>

fun BN_dividedBy :: "config \<Rightarrow> BigNumber \<Rightarrow> BigNumber \<Rightarrow> BigNumber" where
  "BN_dividedBy cfg BNaN y = BNaN"
| "BN_dividedBy cfg x BNaN = BNaN"
| "BN_dividedBy cfg (BInfinity n1) (BInfinity n2) = BNaN"
| "BN_dividedBy cfg (BInfinity n1) (BFinite n2 c e) = BInfinity (n1 \<noteq> n2)"
| "BN_dividedBy cfg (BFinite n1 c e) (BInfinity n2) = BFinite (n1 \<noteq> n2) 0 0"
| "BN_dividedBy cfg (BFinite n1 c1 e1) (BFinite n2 c2 e2) =
     (if c2 = 0 then (if c1 = 0 then BNaN else BInfinity (n1 \<noteq> n2))
      else if c1 = 0 then BFinite (n1 \<noteq> n2) 0 0
      else
        let k = e1 - e2 + int (DECIMAL_PLACES cfg);
            num = (if 0 \<le> k then c1 * 10 ^ nat k else c1);
            den = (if 0 \<le> k then c2 else c2 * 10 ^ nat (- k))
        in mkFinite (n1 \<noteq> n2) ((2 * num + den) div (2 * den)) (- int (DECIMAL_PLACES cfg)))"

text \<open>
  \<^verbatim>\<open>decimalPlaces(dp, ROUND_HALF_UP)\<close> once \<open>dp\<close> has passed the library's range check:
  the digit after position \<open>dp\<close> decides, 5 or more rounds the magnitude up.
\<close>

fun roundHalfUp :: "nat \<Rightarrow> BigNumber \<Rightarrow> BigNumber" where
  "roundHalfUp dp (BFinite neg c e) =
     (if - int dp \<le> e then BFinite neg c e
      else
        let k = nat (- e - int dp);
            q = c div 10 ^ k;
            rd = (c div 10 ^ (k - 1)) mod 10
        in mkFinite neg (if 5 \<le> rd then q + 1 else q) (- int dp))"
| "roundHalfUp dp x = x"

subsection \<open>Strings\<close>

definition digitChar :: "nat \<Rightarrow> char" where
  "digitChar d = ''0123456789'' ! d"

function coeffToString :: "nat \<Rightarrow> string" where
  "coeffToString n =
     (if n < 10 then [digitChar n] else coeffToString (n div 10) @ [digitChar (n mod 10)])"
  by pat_completeness auto
termination
  by (relation "measure id") auto

declare coeffToString.simps [simp del]

definition intToString :: "int \<Rightarrow> string" where
  "intToString i = (if i < 0 then CHR ''-'' # coeffToString (nat (- i)) else coeffToString (nat i))"

definition BN_MAX :: int where
  "BN_MAX = 1000000000"

definition BN_decimalPlaces :: "int \<Rightarrow> BigNumber \<Rightarrow> error + BigNumber" where
  "BN_decimalPlaces dp x =
     (if dp < 0 \<or> BN_MAX < dp
      then Inl (Error (''[BigNumber Error] Argument out of range: '' @ intToString dp))
      else Inr (roundHalfUp (nat dp) x))"

definition toExponential :: "string \<Rightarrow> int \<Rightarrow> string" where
  "toExponential str e =
     (case str of
        [] \<Rightarrow> []
      | c # cs \<Rightarrow> (if cs \<noteq> [] then c # CHR ''.'' # cs else str))
     @ (if e < 0 then ''e'' else ''e+'') @ intToString e"

definition toFixedPoint :: "string \<Rightarrow> int \<Rightarrow> string" where
  "toFixedPoint str e =
     (if e < 0 then ''0.'' @ replicate (nat (- e - 1)) CHR ''0'' @ str
      else if int (length str) < e + 1 then str @ replicate (nat (e + 1) - length str) CHR ''0''
      else if e + 1 < int (length str) then take (nat (e + 1)) str @ ''.'' @ drop (nat (e + 1)) str
      else str)"

definition TO_EXP_NEG :: int where
  "TO_EXP_NEG = - 7"

definition TO_EXP_POS :: int where
  "TO_EXP_POS = 21"

text \<open>\<^verbatim>\<open>toString()\<close> with no base argument.\<close>

fun BN_toString :: "BigNumber \<Rightarrow> string" where
  "BN_toString BNaN = ''NaN''"
| "BN_toString (BInfinity neg) = (if neg then ''-Infinity'' else ''Infinity'')"
| "BN_toString (BFinite neg c e) =
     (let str = coeffToString c;
          se = e + int (length str) - 1;
          body = (if se \<le> TO_EXP_NEG \<or> TO_EXP_POS \<le> se
                  then toExponential str se else toFixedPoint str se)
      in if neg \<and> c \<noteq> 0 then CHR ''-'' # body else body)"

definition isDigit :: "char \<Rightarrow> bool" where
  "isDigit c = (c \<in> set ''0123456789'')"

definition digitVal :: "char \<Rightarrow> nat" where
  "digitVal c =
     (case map_of (zip ''0123456789'' [0, 1, 2, 3, 4, 5, 6, 7, 8, 9]) c of
        Some d \<Rightarrow> d
      | None \<Rightarrow> 0)"

definition digitsToNat :: "string \<Rightarrow> nat" where
  "digitsToNat ds = foldl (\<lambda>acc c. 10 * acc + digitVal c) 0 ds"

definition splitAt :: "(char \<Rightarrow> bool) \<Rightarrow> string \<Rightarrow> string \<times> string option" where
  "splitAt P s =
     (takeWhile (\<lambda>c. \<not> P c) s,
      case dropWhile (\<lambda>c. \<not> P c) s of [] \<Rightarrow> None | c # r \<Rightarrow> Some r)"

text \<open>
  The decimal literals the constructor accepts, the library's
  \<^verbatim>\<open>/^-?(?:\d+(?:\.\d*)?|\.\d+)(?:e[+-]?\d+)?$/i\<close>: sign, integer digits, fraction digits
  and exponent of a literal, \<open>None\<close> for any other string.
\<close>

definition parseExponent :: "string \<Rightarrow> int option" where
  "parseExponent x =
     (let signed = (x \<noteq> [] \<and> (hd x = CHR ''+'' \<or> hd x = CHR ''-''));
          ds = (if signed then tl x else x)
      in if ds = [] \<or> \<not> list_all isDigit ds then None
         else Some (if x \<noteq> [] \<and> hd x = CHR ''-'' then - int (digitsToNat ds)
                    else int (digitsToNat ds)))"

definition parseDecimal :: "string \<Rightarrow> (bool \<times> string \<times> string \<times> int) option" where
  "parseDecimal s =
     (let neg = (s \<noteq> [] \<and> hd s = CHR ''-'');
          body = (if neg then tl s else s);
          (mant, ex) = splitAt (\<lambda>c. c = CHR ''e'' \<or> c = CHR ''E'') body;
          (ip, fp) = splitAt (\<lambda>c. c = CHR ''.'') mant;
          fd = (case fp of None \<Rightarrow> [] | Some f \<Rightarrow> f)
      in if \<not> (list_all isDigit ip \<and> list_all isDigit fd \<and> (ip \<noteq> [] \<or> fd \<noteq> [])) then None
         else (case ex of
                 None \<Rightarrow> Some (neg, ip, fd, 0)
               | Some x \<Rightarrow> (case parseExponent x of
                              None \<Rightarrow> None
                            | Some n \<Rightarrow> Some (neg, ip, fd, n))))"

text \<open>
  \<^verbatim>\<open>new BigNumber(string)\<close>: a decimal literal gives its exact value, \<^verbatim>\<open>Infinity\<close> and
  \<^verbatim>\<open>-Infinity\<close> the infinities, and a string that is not a number gives NaN. (The library
  also strips surrounding white space and a leading plus and reads the prefixes
  \<^verbatim>\<open>0x\<close>, \<^verbatim>\<open>0b\<close>, \<^verbatim>\<open>0o\<close>; such strings are outside this model.)
\<close>

definition BN_of_string :: "string \<Rightarrow> BigNumber" where
  "BN_of_string s =
     (case parseDecimal s of
        Some (neg, ip, fd, n) \<Rightarrow> mkFinite neg (digitsToNat (ip @ fd)) (n - int (length fd))
      | None \<Rightarrow>
          (if s = ''Infinity'' then BInfinity False
           else if s = ''-Infinity'' then BInfinity True
           else BNaN))"

subsection \<open>Native numbers in and out\<close>

text \<open>\<^verbatim>\<open>toNumber()\<close>: the number nearest to the decimal.\<close>

fun BN_toNumber :: "BigNumber \<Rightarrow> number" where
  "BN_toNumber BNaN = NNaN"
| "BN_toNumber (BInfinity neg) = Infinity neg"
| "BN_toNumber (BFinite neg c e) =
     (if c = 0 then Zero neg
      else if 0 \<le> e then fracToDouble neg (int c * 10 ^ nat e) 1
      else fracToDouble neg (int c) (10 ^ nat (- e)))"

text \<open>The decimal exponent of the positive fraction \<open>p / q\<close>.\<close>

function decUp :: "int \<Rightarrow> int \<Rightarrow> int" where
  "decUp p q = (if q \<le> 0 \<or> p < 10 * q then 0 else decUp p (10 * q) + 1)"
  by pat_completeness auto
termination
  by (relation "measure (\<lambda>(p, q). nat (p - q))") auto

declare decUp.simps [simp del]

function decDown :: "int \<Rightarrow> int \<Rightarrow> int \<Rightarrow> int" where
  "decDown e p q = (if q \<le> p \<or> e \<le> - 400 then e else decDown (e - 1) (10 * p) q)"
  by pat_completeness auto
termination
  by (relation "measure (\<lambda>(e, p, q). nat (e + 400))") auto

declare decDown.simps [simp del]

definition decimalExponent :: "int \<Rightarrow> int \<Rightarrow> int" where
  "decimalExponent p q = (if q \<le> p then decUp p q else decDown 0 p q)"

text \<open>
  \<^verbatim>\<open>String(v)\<close> of a positive finite number \<open>v = p / q\<close> prints the decimal with the
  fewest significant digits that converts back to \<open>v\<close> (the closest one to \<open>v\<close> among
  them, the even one on a tie), and the constructor reads that decimal;
  \<open>shortestDecimal\<close> looks for it with \<open>k\<close>, \<open>k + 1\<close>, ... digits. A number has fewer than
  1100 significant digits.
\<close>

function shortestDecimal :: "number \<Rightarrow> int \<Rightarrow> int \<Rightarrow> int \<Rightarrow> BigNumber" where
  "shortestDecimal v p q k =
     (if 1100 < k then BNaN
      else
        let ex = decimalExponent p q + 1 - k;
            a = (if 0 \<le> ex then p else p * 10 ^ nat (- ex));
            d = (if 0 \<le> ex then q * 10 ^ nat ex else q);
            lo = a div d;
            hi = lo + 1;
            rlo = a mod d;
            rhi = d - rlo;
            oklo = (BN_toNumber (mkFinite False (nat lo) ex) = v);
            okhi = (BN_toNumber (mkFinite False (nat hi) ex) = v)
        in if oklo \<and> (\<not> okhi \<or> rlo < rhi \<or> (rlo = rhi \<and> even lo))
           then mkFinite False (nat lo) ex
           else if okhi then mkFinite False (nat hi) ex
           else shortestDecimal v p q (k + 1))"
  by pat_completeness auto
termination
  by (relation "measure (\<lambda>(v, p, q, k). nat (1101 - k))") auto

declare shortestDecimal.simps [simp del]

text \<open>
  \<^verbatim>\<open>new BigNumber(number)\<close>: an integer below \<open>2 ^ 31\<close> in magnitude is taken as it is, any
  other finite number through \<^verbatim>\<open>String(v)\<close>.
\<close>

fun BN_of_number :: "number \<Rightarrow> BigNumber" where
  "BN_of_number NNaN = BNaN"
| "BN_of_number (Infinity neg) = BInfinity neg"
| "BN_of_number (Zero neg) = BFinite neg 0 0"
| "BN_of_number (Num m x) =
     (if 0 \<le> x \<and> \<bar>m\<bar> * 2 ^ nat x < 2 ^ 31 then mkFinite (m < 0) (nat (\<bar>m\<bar> * 2 ^ nat x)) 0
      else
        let p = (if 0 \<le> x then \<bar>m\<bar> * 2 ^ nat x else \<bar>m\<bar>);
            q = (if 0 \<le> x then 1 else 2 ^ nat (- x));
            b = shortestDecimal (Num \<bar>m\<bar> x) p q 1
        in if m < 0 then BN_negated b else b)"

subsection \<open>Aggregation\<close>

text \<open>
  \<^verbatim>\<open>BigNumber.sum\<close>, \<^verbatim>\<open>BigNumber.min\<close> and \<^verbatim>\<open>BigNumber.max\<close> start from
  \<^verbatim>\<open>new BigNumber(args[0])\<close>, which is NaN when there is no argument.
\<close>

fun BN_sum :: "BigNumber list \<Rightarrow> BigNumber" where
  "BN_sum [] = BNaN"
| "BN_sum (x # xs) = foldl BN_plus x xs"

definition maxOrMinStep :: "int \<Rightarrow> BigNumber \<Rightarrow> BigNumber \<Rightarrow> BigNumber" where
  "maxOrMinStep n x y =
     (if BN_isNaN y \<or> compare x y = Some n
         \<or> (compare x y = Some 0 \<and> (if BN_isNegative x then - 1 else 1) = n)
      then y else x)"

fun maxOrMin :: "BigNumber list \<Rightarrow> int \<Rightarrow> BigNumber" where
  "maxOrMin [] n = BNaN"
| "maxOrMin (x # xs) n = foldl (maxOrMinStep n) x xs"

definition BN_max :: "BigNumber list \<Rightarrow> BigNumber" where
  "BN_max args = maxOrMin args (- 1)"

definition BN_min :: "BigNumber list \<Rightarrow> BigNumber" where
  "BN_min args = maxOrMin args 1"

section \<open>zan-number.ts\<close>

text \<open>
  The class holds one field, \<^verbatim>\<open>value\<close>. \<open>ctor_value\<close> is what can reach a constructor at
  run time: the three shapes the type allows and anything else.
\<close>

record ZanNumber =
  zvalue :: BigNumber

datatype ctor_value = VBigNumber BigNumber | VNumber number | VString string | VOther

fun ZanNumber_new :: "ctor_value \<Rightarrow> error + ZanNumber" where
  "ZanNumber_new (VBigNumber v) =
     (if BN_isNaN v \<or> \<not> BN_isFinite v
      then Inl (Error ''Invalid ZanNumber BigNumber value: must be finite and not NaN'')
      else Inr \<lparr> zvalue = v \<rparr>)"
| "ZanNumber_new (VNumber v) =
     (if js_isNaN v \<or> \<not> js_isFinite v
      then Inl (Error ''Invalid ZanNumber number value: must be finite and not NaN'')
      else Inr \<lparr> zvalue = BN_of_number v \<rparr>)"
| "ZanNumber_new (VString v) =
     (let bigNumValue = BN_of_string v
      in if BN_isNaN bigNumValue \<or> \<not> BN_isFinite bigNumValue
         then Inl (Error ''Invalid ZanNumber string format: must be finite and not NaN'')
         else Inr \<lparr> zvalue = bigNumValue \<rparr>)"
| "ZanNumber_new VOther =
     Inl (Error ''Invalid ZanNumber input type: must be BigNumber, number, or string'')"

definition ZanNumber_sum :: "ZanNumber list \<Rightarrow> error + ZanNumber" where
  "ZanNumber_sum args = ZanNumber_new (VBigNumber (BN_sum (map zvalue args)))"

definition ZanNumber_min :: "ZanNumber list \<Rightarrow> error + ZanNumber" where
  "ZanNumber_min args = ZanNumber_new (VBigNumber (BN_min (map zvalue args)))"

definition ZanNumber_max :: "ZanNumber list \<Rightarrow> error + ZanNumber" where
  "ZanNumber_max args = ZanNumber_new (VBigNumber (BN_max (map zvalue args)))"

text \<open>An argument of a comparison: a \<^verbatim>\<open>ZanNumber\<close> instance or any other value.\<close>

datatype comparable = CZanNumber ZanNumber | CValue ctor_value

fun createValueForComparisonOperations :: "comparable \<Rightarrow> error + ZanNumber" where
  "createValueForComparisonOperations (CZanNumber z) = Inr z"
| "createValueForComparisonOperations (CValue v) = ZanNumber_new v"

definition ZanNumber_toNumber :: "ZanNumber \<Rightarrow> number" where
  "ZanNumber_toNumber this = BN_toNumber (zvalue this)"

text \<open>\<^verbatim>\<open>toString(base?)\<close> is modelled for the call without a base.\<close>

definition ZanNumber_toString :: "ZanNumber \<Rightarrow> string" where
  "ZanNumber_toString this = BN_toString (zvalue this)"

definition ZanNumber_toBigNumber :: "ZanNumber \<Rightarrow> BigNumber" where
  "ZanNumber_toBigNumber this = zvalue this"

definition ZanNumber_add :: "ZanNumber \<Rightarrow> ZanNumber \<Rightarrow> error + ZanNumber" where
  "ZanNumber_add this other = ZanNumber_new (VBigNumber (BN_plus (zvalue this) (zvalue other)))"

definition ZanNumber_subtract :: "ZanNumber \<Rightarrow> ZanNumber \<Rightarrow> error + ZanNumber" where
  "ZanNumber_subtract this other =
     ZanNumber_new (VBigNumber (BN_minus (zvalue this) (zvalue other)))"

definition ZanNumber_multiply :: "ZanNumber \<Rightarrow> number \<Rightarrow> error + ZanNumber" where
  "ZanNumber_multiply this multiplier =
     ZanNumber_new (VBigNumber (BN_times (zvalue this) (BN_of_number multiplier)))"

definition ZanNumber_divide :: "config \<Rightarrow> ZanNumber \<Rightarrow> number \<Rightarrow> error + ZanNumber" where
  "ZanNumber_divide cfg this divisor =
     (if BN_isZero (BN_of_number divisor) then Inl (Error ''Division by zero'')
      else ZanNumber_new (VBigNumber (BN_dividedBy cfg (zvalue this) (BN_of_number divisor))))"

text \<open>
  A \<open>scale\<close> argument is an integer, \<open>None\<close> when the caller leaves it out: the default
  \<^verbatim>\<open>BigNumber.config().DECIMAL_PLACES\<close> is read at the call.
\<close>

definition scaleOrDefault :: "config \<Rightarrow> int option \<Rightarrow> int" where
  "scaleOrDefault cfg scale = (case scale of None \<Rightarrow> int (DECIMAL_PLACES cfg) | Some s \<Rightarrow> s)"

definition ZanNumber_multiplyAndRound ::
  "config \<Rightarrow> ZanNumber \<Rightarrow> number \<Rightarrow> int option \<Rightarrow> error + ZanNumber" where
  "ZanNumber_multiplyAndRound cfg this multiplier scale =
     (case BN_decimalPlaces (scaleOrDefault cfg scale)
             (BN_times (zvalue this) (BN_of_number multiplier)) of
        Inl e \<Rightarrow> Inl e
      | Inr r \<Rightarrow> ZanNumber_new (VBigNumber r))"

definition ZanNumber_divideAndRound ::
  "config \<Rightarrow> ZanNumber \<Rightarrow> number \<Rightarrow> int option \<Rightarrow> error + ZanNumber" where
  "ZanNumber_divideAndRound cfg this divider scale =
     (if BN_isZero (BN_of_number divider) then Inl (Error ''Division by zero'')
      else (case BN_decimalPlaces (scaleOrDefault cfg scale)
                   (BN_dividedBy cfg (zvalue this) (BN_of_number divider)) of
              Inl e \<Rightarrow> Inl e
            | Inr r \<Rightarrow> ZanNumber_new (VBigNumber r)))"

definition ZanNumber_round :: "config \<Rightarrow> ZanNumber \<Rightarrow> int option \<Rightarrow> error + ZanNumber" where
  "ZanNumber_round cfg this scale =
     (case BN_decimalPlaces (scaleOrDefault cfg scale) (zvalue this) of
        Inl e \<Rightarrow> Inl e
      | Inr r \<Rightarrow> ZanNumber_new (VBigNumber r))"

definition ZanNumber_isEqual :: "ZanNumber \<Rightarrow> comparable \<Rightarrow> error + bool" where
  "ZanNumber_isEqual this other =
     (case createValueForComparisonOperations other of
        Inl e \<Rightarrow> Inl e
      | Inr data \<Rightarrow> Inr (BN_isEqualTo (zvalue this) (zvalue data)))"

definition ZanNumber_isLessThan :: "ZanNumber \<Rightarrow> comparable \<Rightarrow> error + bool" where
  "ZanNumber_isLessThan this other =
     (case createValueForComparisonOperations other of
        Inl e \<Rightarrow> Inl e
      | Inr data \<Rightarrow> Inr (BN_isLessThan (zvalue this) (zvalue data)))"

definition ZanNumber_isLessThanOrEqual :: "ZanNumber \<Rightarrow> comparable \<Rightarrow> error + bool" where
  "ZanNumber_isLessThanOrEqual this other =
     (case createValueForComparisonOperations other of
        Inl e \<Rightarrow> Inl e
      | Inr data \<Rightarrow> Inr (BN_isLessThanOrEqualTo (zvalue this) (zvalue data)))"

definition ZanNumber_isGreaterThan :: "ZanNumber \<Rightarrow> comparable \<Rightarrow> error + bool" where
  "ZanNumber_isGreaterThan this other =
     (case createValueForComparisonOperations other of
        Inl e \<Rightarrow> Inl e
      | Inr data \<Rightarrow> Inr (BN_isGreaterThan (zvalue this) (zvalue data)))"

definition ZanNumber_isGreaterThanOrEqual :: "ZanNumber \<Rightarrow> comparable \<Rightarrow> error + bool" where
  "ZanNumber_isGreaterThanOrEqual this other =
     (case createValueForComparisonOperations other of
        Inl e \<Rightarrow> Inl e
      | Inr data \<Rightarrow> Inr (BN_isGreaterThanOrEqualTo (zvalue this) (zvalue data)))"

section \<open>money.ts\<close>

definition comparementError :: string where
  "comparementError = ''Cannot compare Money instances with different currencies''"

definition sumError :: string where
  "sumError = ''Cannot sum Money instances with different currencies''"

text \<open>The fields \<^verbatim>\<open>_value\<close> and \<^verbatim>\<open>currencyCode\<close>.\<close>

record Money =
  mvalue :: ZanNumber
  currencyCode :: string

definition Money_new :: "ctor_value \<Rightarrow> string \<Rightarrow> error + Money" where
  "Money_new v code =
     (case validateCurrencyCode code of
        Inl e \<Rightarrow> Inl e
      | Inr u \<Rightarrow>
          (case ZanNumber_new v of
             Inl e \<Rightarrow> Inl e
           | Inr z \<Rightarrow> Inr \<lparr> mvalue = z, currencyCode = code \<rparr>))"

text \<open>A value handed to \<^verbatim>\<open>isMoney\<close>: a \<^verbatim>\<open>Money\<close> instance or anything else.\<close>

datatype money_arg = AMoney Money | NotMoney

fun isMoney :: "money_arg \<Rightarrow> bool" where
  "isMoney (AMoney m) = True"
| "isMoney NotMoney = False"

text \<open>
  The three static aggregations: the length check, the loop over \<open>args[1..]\<close> that compares
  each currency with the first, then the aggregation of the values.
\<close>

definition Money_sum :: "Money list \<Rightarrow> error + Money" where
  "Money_sum args =
     (case args of
        [] \<Rightarrow> Inl (Error ''Cannot sum empty array'')
      | first # rest \<Rightarrow>
          (if \<exists>m \<in> set rest. currencyCode m \<noteq> currencyCode first then Inl (Error sumError)
           else (case ZanNumber_sum (map mvalue args) of
                   Inl e \<Rightarrow> Inl e
                 | Inr z \<Rightarrow> Money_new (VBigNumber (ZanNumber_toBigNumber z)) (currencyCode first))))"

definition Money_min_static :: "Money list \<Rightarrow> error + Money" where
  "Money_min_static args =
     (case args of
        [] \<Rightarrow> Inl (Error ''Cannot get min of empty array'')
      | first # rest \<Rightarrow>
          (if \<exists>m \<in> set rest. currencyCode m \<noteq> currencyCode first
           then Inl (Error comparementError)
           else (case ZanNumber_min (map mvalue args) of
                   Inl e \<Rightarrow> Inl e
                 | Inr z \<Rightarrow> Money_new (VBigNumber (ZanNumber_toBigNumber z)) (currencyCode first))))"

definition Money_max_static :: "Money list \<Rightarrow> error + Money" where
  "Money_max_static args =
     (case args of
        [] \<Rightarrow> Inl (Error ''Cannot get max of empty array'')
      | first # rest \<Rightarrow>
          (if \<exists>m \<in> set rest. currencyCode m \<noteq> currencyCode first
           then Inl (Error comparementError)
           else (case ZanNumber_max (map mvalue args) of
                   Inl e \<Rightarrow> Inl e
                 | Inr z \<Rightarrow> Money_new (VBigNumber (ZanNumber_toBigNumber z)) (currencyCode first))))"

definition getCurrencyCode :: "Money \<Rightarrow> string" where
  "getCurrencyCode this = currencyCode this"

definition Money_toNumber :: "Money \<Rightarrow> number" where
  "Money_toNumber this = ZanNumber_toNumber (mvalue this)"


definition Money_toBigNumber :: "Money \<Rightarrow> BigNumber" where
  "Money_toBigNumber this = ZanNumber_toBigNumber (mvalue this)"

record MoneyDto =
  amount :: string
  currency :: string

definition toMoneyDto :: "Money \<Rightarrow> MoneyDto" where
  "toMoneyDto this = \<lparr> amount = ZanNumber_toString (mvalue this), currency = currencyCode this \<rparr>"

text \<open>The number 100.\<close>

definition hundred :: number where
  "hundred = Num 25 2"

definition toCents :: "Money \<Rightarrow> number" where
  "toCents this =
     Math_round (BN_toNumber (BN_times (ZanNumber_toBigNumber (mvalue this)) (BN_of_number hundred)))"

definition Money_add :: "Money \<Rightarrow> Money \<Rightarrow> error + Money" where
  "Money_add this other =
     (if currencyCode this \<noteq> currencyCode other
      then Inl (Error ''Cannot add money with different currency codes'')
      else (case ZanNumber_add (mvalue this) (mvalue other) of
              Inl e \<Rightarrow> Inl e
            | Inr z \<Rightarrow> Money_new (VBigNumber (ZanNumber_toBigNumber z)) (currencyCode this)))"

definition Money_subtract :: "Money \<Rightarrow> Money \<Rightarrow> error + Money" where
  "Money_subtract this other =
     (if currencyCode this \<noteq> currencyCode other
      then Inl (Error ''Cannot subtract money with different currency codes'')
      else (case ZanNumber_subtract (mvalue this) (mvalue other) of
              Inl e \<Rightarrow> Inl e
            | Inr z \<Rightarrow> Money_new (VBigNumber (ZanNumber_toBigNumber z)) (currencyCode this)))"

definition Money_multiplyAndRound ::
  "config \<Rightarrow> Money \<Rightarrow> number \<Rightarrow> int option \<Rightarrow> error + Money" where
  "Money_multiplyAndRound cfg this multiplier scale =
     (case ZanNumber_multiplyAndRound cfg (mvalue this) multiplier
             (Some (scaleOrDefault cfg scale)) of
        Inl e \<Rightarrow> Inl e
      | Inr z \<Rightarrow> Money_new (VBigNumber (ZanNumber_toBigNumber z)) (currencyCode this))"

definition Money_divideAndRound ::
  "config \<Rightarrow> Money \<Rightarrow> number \<Rightarrow> int option \<Rightarrow> error + Money" where
  "Money_divideAndRound cfg this divider scale =
     (case ZanNumber_divideAndRound cfg (mvalue this) divider
             (Some (scaleOrDefault cfg scale)) of
        Inl e \<Rightarrow> Inl e
      | Inr z \<Rightarrow> Money_new (VBigNumber (ZanNumber_toBigNumber z)) (currencyCode this))"

definition Money_round :: "config \<Rightarrow> Money \<Rightarrow> int option \<Rightarrow> error + Money" where
  "Money_round cfg this scale =
     (case ZanNumber_round cfg (mvalue this) (Some (scaleOrDefault cfg scale)) of
        Inl e \<Rightarrow> Inl e
      | Inr z \<Rightarrow> Money_new (VBigNumber (ZanNumber_toBigNumber z)) (currencyCode this))"

text \<open>
  \<^verbatim>\<open>isEqual\<close>: the conjunction is evaluated left to right, so the values are compared
  only when the currencies agree.
\<close>

fun Money_isEqual :: "Money \<Rightarrow> money_arg \<Rightarrow> error + bool" where
  "Money_isEqual this NotMoney = Inr False"
| "Money_isEqual this (AMoney other) =
     (if currencyCode this = currencyCode other
      then ZanNumber_isEqual (mvalue this) (CZanNumber (mvalue other))
      else Inr False)"

definition Money_isLessThan :: "Money \<Rightarrow> Money \<Rightarrow> error + bool" where
  "Money_isLessThan this other =
     (if currencyCode this \<noteq> currencyCode other then Inl (Error comparementError)
      else ZanNumber_isLessThan (mvalue this) (CZanNumber (mvalue other)))"

definition Money_isLessThanOrEqual :: "Money \<Rightarrow> Money \<Rightarrow> error + bool" where
  "Money_isLessThanOrEqual this other =
     (if currencyCode this \<noteq> currencyCode other then Inl (Error comparementError)
      else ZanNumber_isLessThanOrEqual (mvalue this) (CZanNumber (mvalue other)))"

definition Money_isGreaterThan :: "Money \<Rightarrow> Money \<Rightarrow> error + bool" where
  "Money_isGreaterThan this other =
     (if currencyCode this \<noteq> currencyCode other then Inl (Error comparementError)
      else ZanNumber_isGreaterThan (mvalue this) (CZanNumber (mvalue other)))"

definition Money_isGreaterThanOrEqual :: "Money \<Rightarrow> Money \<Rightarrow> error + bool" where
  "Money_isGreaterThanOrEqual this other =
     (if currencyCode this \<noteq> currencyCode other then Inl (Error comparementError)
      else ZanNumber_isGreaterThanOrEqual (mvalue this) (CZanNumber (mvalue other)))"

text \<open>
  The instance methods \<^verbatim>\<open>min\<close> and \<^verbatim>\<open>max\<close> return \<^verbatim>\<open>this\<close> or \<^verbatim>\<open>other\<close>, an
  existing object. Objects are references into a store, so that the result is the
  reference of the object returned.
\<close>

type_synonym ref = nat

type_synonym store = "ref \<Rightarrow> Money"

definition Money_min :: "store \<Rightarrow> ref \<Rightarrow> ref \<Rightarrow> error + ref" where
  "Money_min h this other =
     (if currencyCode (h this) \<noteq> currencyCode (h other) then Inl (Error comparementError)
      else (case Money_isLessThan (h this) (h other) of
              Inl e \<Rightarrow> Inl e
            | Inr lt \<Rightarrow> Inr (if lt then this else other)))"

definition Money_max :: "store \<Rightarrow> ref \<Rightarrow> ref \<Rightarrow> error + ref" where
  "Money_max h this other =
     (if currencyCode (h this) \<noteq> currencyCode (h other) then Inl (Error comparementError)
      else (case Money_isGreaterThan (h this) (h other) of
              Inl e \<Rightarrow> Inl e
            | Inr gt \<Rightarrow> Inr (if gt then this else other)))"

section \<open>money.dto.ts\<close>

text \<open>The validator of the \<^verbatim>\<open>amount\<close> field, \<^verbatim>\<open>@Matches(/^-?\d+(\.\d+)?$/)\<close>.\<close>

definition matchesAmountPattern :: "string \<Rightarrow> bool" where
  "matchesAmountPattern s =
     (let body = (if s \<noteq> [] \<and> hd s = CHR ''-'' then tl s else s);
          (ip, fp) = splitAt (\<lambda>c. c = CHR ''.'') body
      in ip \<noteq> [] \<and> list_all isDigit ip
         \<and> (case fp of None \<Rightarrow> True | Some f \<Rightarrow> f \<noteq> [] \<and> list_all isDigit f))"

section \<open>money-factory.ts\<close>

text \<open>
  The factory methods, each with its currency argument given (the default
  \<^verbatim>\<open>CurrencyEnum.USD\<close> is the caller passing \<open>''USD''\<close>).
\<close>

definition invalidStringFormatError :: string where
  "invalidStringFormatError = ''Invalid Money string format''"

definition fromMoneyDto :: "MoneyDto \<Rightarrow> error + Money" where
  "fromMoneyDto dto =
     (let v = BN_of_string (amount dto)
      in if BN_isNaN v \<or> \<not> BN_isFinite v then Inl (Error invalidStringFormatError)
         else Money_new (VBigNumber v) (currency dto))"





definition zero :: "string \<Rightarrow> error + Money" where
  "zero code =
     (case validateCurrencyCode code of
        Inl e \<Rightarrow> Inl e
      | Inr u \<Rightarrow> Money_new (VNumber (Zero False)) code)"

definition fromCents :: "config \<Rightarrow> number \<Rightarrow> string \<Rightarrow> error + Money" where
  "fromCents cfg cents code =
     (case validateCurrencyCode code of
        Inl e \<Rightarrow> Inl e
      | Inr u \<Rightarrow>
          (if \<not> Number_isInteger cents \<or> \<not> js_isFinite cents
           then Inl (Error ''Cents must be an integer'')
           else Money_new
                  (VBigNumber (BN_dividedBy cfg (BN_of_number cents) (BN_of_number hundred)))
                  code))"

section \<open>Rounding modes of the specification\<close>



section \<open>Example values\<close>

definition usd100 :: Money where
  "usd100 = \<lparr> mvalue = \<lparr> zvalue = BFinite False 1 2 \<rparr>, currencyCode = ''USD'' \<rparr>"

definition eur50 :: Money where
  "eur50 = \<lparr> mvalue = \<lparr> zvalue = BFinite False 5 1 \<rparr>, currencyCode = ''EUR'' \<rparr>"

definition usdEurStore :: store where
  "usdEurStore r = (if r = 0 then usd100 else eur50)"

definition zanOne :: ZanNumber where
  "zanOne = \<lparr> zvalue = BFinite False 1 0 \<rparr>"


definition dtoSmall :: MoneyDto where
  "dtoSmall = \<lparr> amount = ''0.0000001'', currency = ''USD'' \<rparr>"

text \<open>The errors the source throws for an empty argument list.\<close>

definition emptySequenceErrors :: "error list" where
  "emptySequenceErrors =
     [Error ''Cannot sum empty array'', Error ''Cannot get min of empty array'',
      Error ''Cannot get max of empty array'']"

definition twoEqualStore :: store where
  "twoEqualStore r = usd100"

definition zan10445 :: ZanNumber where
  "zan10445 = \<lparr> zvalue = BFinite True 10445 (- 2) \<rparr>"


definition onePlaceConfig :: config where
  "onePlaceConfig = \<lparr> DECIMAL_PLACES = 1 \<rparr>"

definition usd123_5 :: Money where
  "usd123_5 = \<lparr> mvalue = \<lparr> zvalue = BFinite False 1235 (- 1) \<rparr>, currencyCode = ''USD'' \<rparr>"

definition usd100_5 :: Money where
  "usd100_5 = \<lparr> mvalue = \<lparr> zvalue = BFinite False 1005 (- 1) \<rparr>, currencyCode = ''USD'' \<rparr>"

section \<open>Evaluation and construction lemmas\<close>

lemmas bn_eval = mkFinite_def stripZeros.simps coeffToString.simps BN_of_string_def parseDecimal_def
  parseExponent_def splitAt_def isDigit_def digitsToNat_def digitVal_def
  BN_plus_def BN_minus_def toExponential_def toFixedPoint_def intToString_def digitChar_def
  TO_EXP_NEG_def TO_EXP_POS_def Let_def

lemma valid_USD: "isValidCurrencyCode ''USD''"
  by (simp add: isValidCurrencyCode_def CurrencyEnum_def)


lemma Money_new_finite:
  "isValidCurrencyCode c \<Longrightarrow> BN_isFinite v \<Longrightarrow>
   Money_new (VBigNumber v) c = Inr \<lparr> mvalue = \<lparr> zvalue = v \<rparr>, currencyCode = c \<rparr>"
  by (cases v) (simp_all add: Money_new_def validateCurrencyCode_def)

lemma Money_new_invalid_currency:
  "\<not> isValidCurrencyCode c \<Longrightarrow> Money_new v c = Inl (Error (''Invalid currency code: '' @ c))"
  by (simp add: Money_new_def validateCurrencyCode_def)

section \<open>Values of decimals\<close>

lemma pow10_power_int: "pow10 k = power_int 10 k"
  by (simp add: pow10_def power_int_def field_simps)

lemma pow10_add: "pow10 (a + b) = pow10 a * pow10 b"
  by (simp add: pow10_power_int power_int_add)

lemma pow10_nat: "pow10 (int n) = 10 ^ n"
  by (simp add: pow10_def)

lemma pow10_pos: "0 < pow10 k"
  by (simp add: pow10_def)

lemma stripZeros_value:
  "stripZeros c e = (c', e') \<Longrightarrow> of_nat c' * pow10 e' = of_nat c * pow10 e"
proof (induction c e rule: stripZeros.induct)
  case (1 c e)
  show ?case
  proof (cases "c = 0")
    case True
    with "1.prems" show ?thesis by (simp add: stripZeros.simps)
  next
    case False
    show ?thesis
    proof (cases "c mod 10 = 0")
      case True
      with False "1.prems" have r: "stripZeros (c div 10) (e + 1) = (c', e')"
        by (simp add: stripZeros.simps [of c e])
      have "of_nat c' * pow10 e' = of_nat (c div 10) * pow10 (e + 1)"
        using "1.IH" [OF False True r] .
      also have "\<dots> = of_nat (c div 10) * 10 * pow10 e"
        using pow10_add [of e 1] by (simp add: pow10_def)
      also have "of_nat (c div 10) * (10::rat) = of_nat (c div 10 * 10)"
        by simp
      also have "c div 10 * 10 = c"
        using True by auto
      finally show ?thesis .
    next
      case nz: False
      with False "1.prems" show ?thesis by (simp add: stripZeros.simps [of c e])
    qed
  qed
qed

lemma BN_value_mkFinite:
  "BN_value (mkFinite neg c e) = (if neg then - 1 else 1) * of_nat c * pow10 e"
proof -
  obtain c' e' where s: "stripZeros c e = (c', e')" by force
  from stripZeros_value [OF s] show ?thesis
    by (simp add: mkFinite_def s)
qed

lemma BN_isFinite_mkFinite: "BN_isFinite (mkFinite neg c e)"
  by (simp add: mkFinite_def split: prod.splits)

lemma half_up_digit:
  fixes c T :: nat
  assumes "0 < T"
  shows "(2 * c + 10 * T) div (20 * T) = c div (10 * T) + (if 5 \<le> (c div T) mod 10 then 1 else 0)"
proof -
  define q where "q = c div (10 * T)"
  define r where "r = c mod (10 * T)"
  have c: "c = q * (10 * T) + r"
    unfolding q_def r_def by (rule div_mult_mod_eq [symmetric])
  have rl: "r < 10 * T"
    using assms by (simp add: r_def)
  have "c div T = q * 10 + r div T"
    using assms by (subst c) (simp add: algebra_simps)
  moreover have "r div T < 10"
    using rl assms by (simp add: less_mult_imp_div_less mult.commute)
  ultimately have d: "(c div T) mod 10 = r div T"
    by simp
  have five: "5 \<le> r div T \<longleftrightarrow> 5 * T \<le> r"
    using assms by (simp add: less_eq_div_iff_mult_less_eq)
  have split: "2 * c + 10 * T = q * (20 * T) + (2 * r + 10 * T)"
    by (subst c) (simp add: algebra_simps)
  have "(2 * c + 10 * T) div (20 * T) = q + (2 * r + 10 * T) div (20 * T)"
    using assms by (subst split) simp
  moreover have "(2 * r + 10 * T) div (20 * T) = (if 5 * T \<le> r then 1 else 0)"
  proof (cases "5 * T \<le> r")
    case True
    then have "20 * T \<le> 2 * r + 10 * T" "2 * r + 10 * T < 2 * (20 * T)"
      using rl by simp_all
    then have "(2 * r + 10 * T) div (20 * T) = 1"
      by (intro div_nat_eqI) simp_all
    with True show ?thesis by simp
  next
    case False
    then have "2 * r + 10 * T < 20 * T" by simp
    with False show ?thesis by simp
  qed
  ultimately show ?thesis
    by (simp add: d five q_def)
qed

lemma floor_half_up:
  fixes c n :: nat
  assumes "0 < n"
  shows "\<lfloor>(of_nat c :: rat) / of_nat n + 1 / 2\<rfloor> = int ((2 * c + n) div (2 * n))"
proof -
  have "(of_nat c :: rat) / of_nat n + 1 / 2 = of_nat (2 * c + n) / of_nat (2 * n)"
    using assms by (simp add: field_simps)
  then show ?thesis
    by (simp only: floor_divide_of_nat_eq)
qed


lemma floor_int_plus_half: "\<lfloor>(of_int n :: rat) + 1 / 2\<rfloor> = n"
  by (rule floor_unique) simp_all

lemma roundHalfUp_value:
  "BN_value (roundHalfUp dp (BFinite neg c e))
     = (if neg then - 1 else 1) * of_int \<lfloor>of_nat c * pow10 e * 10 ^ dp + 1 / 2\<rfloor> / 10 ^ dp"
proof (cases "- int dp \<le> e")
  case True
  then have sh: "pow10 e * 10 ^ dp = 10 ^ nat (e + int dp)"
    using pow10_add [of e "int dp"] by (simp add: pow10_nat) (simp add: pow10_def)
  have "of_nat c * pow10 e * 10 ^ dp = (of_int (int (c * 10 ^ nat (e + int dp))) :: rat)"
    using sh by (simp add: mult.assoc)
  then have fl: "\<lfloor>of_nat c * pow10 e * 10 ^ dp + 1 / 2\<rfloor> = int (c * 10 ^ nat (e + int dp))"
    by (simp only: floor_int_plus_half)
  have "(of_int (int (c * 10 ^ nat (e + int dp))) :: rat) / 10 ^ dp = of_nat c * pow10 e"
    using sh by (simp add: mult.assoc [symmetric]) (metis mult.assoc nonzero_mult_div_cancel_right power_not_zero zero_neq_numeral)
  with True fl show ?thesis
    by simp
next
  case False
  define k where "k = nat (- e - int dp)"
  have kpos: "0 < k" and ek: "e + int dp = - int k"
    using False by (simp_all add: k_def)
  have "pow10 e * 10 ^ dp = pow10 (e + int dp)"
    using pow10_add [of e "int dp"] by (simp add: pow10_nat)
  also have "\<dots> = 1 / 10 ^ k"
    using kpos by (simp add: ek pow10_def)
  finally have sh: "pow10 e * 10 ^ dp = 1 / 10 ^ k" .
  have x: "of_nat c * pow10 e * 10 ^ dp + 1 / 2 = (of_nat c :: rat) / of_nat (10 ^ k) + 1 / 2"
    using sh by (simp add: mult.assoc)
  have T: "(10::nat) ^ k = 10 * 10 ^ (k - 1)"
    using kpos by (cases k) simp_all
  have fl: "\<lfloor>of_nat c * pow10 e * 10 ^ dp + 1 / 2\<rfloor>
              = int (c div 10 ^ k + (if 5 \<le> (c div 10 ^ (k - 1)) mod 10 then 1 else 0))"
  proof -
    have "\<lfloor>(of_nat c :: rat) / of_nat (10 ^ k) + 1 / 2\<rfloor> = int ((2 * c + 10 ^ k) div (2 * 10 ^ k))"
      by (rule floor_half_up) simp
    also have "(2 * c + 10 ^ k) div (2 * 10 ^ k) = (2 * c + 10 * 10 ^ (k - 1)) div (20 * 10 ^ (k - 1))"
      by (subst (1 2) T) simp
    also have "\<dots> = c div (10 * 10 ^ (k - 1)) + (if 5 \<le> (c div 10 ^ (k - 1)) mod 10 then 1 else 0)"
      by (rule half_up_digit) simp
    also have "c div (10 * 10 ^ (k - 1)) = c div 10 ^ k"
      by (subst T) simp
    finally show ?thesis
      by (simp only: x)
  qed
  have r: "roundHalfUp dp (BFinite neg c e)
             = mkFinite neg (if 5 \<le> (c div 10 ^ (k - 1)) mod 10 then c div 10 ^ k + 1 else c div 10 ^ k)
                 (- int dp)"
    using False by (simp add: k_def Let_def)
  have p: "pow10 (- int dp) = 1 / 10 ^ dp"
    by (simp add: pow10_def)
  show ?thesis
    unfolding r BN_value_mkFinite fl p by simp
qed

lemma BN_isFinite_roundHalfUp: "BN_isFinite x \<Longrightarrow> BN_isFinite (roundHalfUp dp x)"
  by (cases x) (simp_all add: Let_def BN_isFinite_mkFinite)

lemma BN_value_abs:
  "\<bar>BN_value (BFinite neg c e)\<bar> = of_nat c * pow10 e"
  using pow10_pos [of e] by (simp add: abs_mult)

lemma BN_value_sign:
  "(if BN_value (BFinite neg c e) < 0 then - 1 else 1) * of_int \<lfloor>of_nat c * pow10 e * 10 ^ dp + 1 / 2\<rfloor>
     = (if neg then - 1 else (1::rat)) * of_int \<lfloor>of_nat c * pow10 e * 10 ^ dp + 1 / 2\<rfloor>"
proof (cases "c = 0")
  case True
  have "\<lfloor>(0::rat) + 1 / 2\<rfloor> = 0"
    using floor_int_plus_half [of 0] by simp
  with True show ?thesis by simp
next
  case False
  then have pos: "0 < (of_nat c :: rat) * pow10 e"
    using pow10_pos [of e] by simp
  have "BN_value (BFinite neg c e) < 0 \<longleftrightarrow> neg"
  proof (cases neg)
    case True
    with pos show ?thesis by simp
  next
    case False
    with pos show ?thesis by (simp add: not_less less_imp_le)
  qed
  then show ?thesis
    by simp
qed

lemma ZanNumber_new_finite:
  "BN_isFinite v \<Longrightarrow> ZanNumber_new (VBigNumber v) = Inr \<lparr> zvalue = v \<rparr>"
  by (cases v) simp_all

section \<open>Values of numbers\<close>

lemma pow2_power_int: "pow2 k = power_int 2 k"
  by (simp add: pow2_def power_int_def field_simps)

lemma pow2_add: "pow2 (a + b) = pow2 a * pow2 b"
  by (simp add: pow2_power_int power_int_add)

lemma pow2_nat: "pow2 (int n) = 2 ^ n"
  by (simp add: pow2_def)

lemma pow2_pos: "0 < pow2 k"
  by (simp add: pow2_def)

lemma stripTwos_value:
  "stripTwos n sh = (m, x) \<Longrightarrow> of_int m * pow2 x = of_int n * pow2 sh"
proof (induction n sh rule: stripTwos.induct)
  case (1 n sh)
  show ?case
  proof (cases "n = 0 \<or> odd n")
    case True
    with "1.prems" show ?thesis by (simp add: stripTwos.simps [of n sh])
  next
    case False
    then have ev: "even n" and nz: "n \<noteq> 0" by simp_all
    from False "1.prems" have r: "stripTwos (n div 2) (sh + 1) = (m, x)"
      by (simp add: stripTwos.simps [of n sh])
    have "of_int m * pow2 x = of_int (n div 2) * pow2 (sh + 1)"
      using "1.IH" [OF False r] .
    also have "\<dots> = of_int (n div 2) * 2 * pow2 sh"
      using pow2_add [of sh 1] by (simp add: pow2_def)
    also have "of_int (n div 2) * (2::rat) = of_int (n div 2 * 2)"
      by simp
    also have "n div 2 * 2 = n"
      using ev by auto
    finally show ?thesis .
  qed
qed

lemma stripTwos_shape:
  "stripTwos n sh = (m, x) \<Longrightarrow> 0 < n \<Longrightarrow> odd m \<and> 0 < m \<and> m \<le> n \<and> sh \<le> x"
proof (induction n sh rule: stripTwos.induct)
  case (1 n sh)
  show ?case
  proof (cases "n = 0 \<or> odd n")
    case True
    with "1.prems" show ?thesis by (simp add: stripTwos.simps [of n sh])
  next
    case False
    then have ev: "even n" and nz: "n \<noteq> 0" by simp_all
    from False "1.prems" have r: "stripTwos (n div 2) (sh + 1) = (m, x)"
      by (simp add: stripTwos.simps [of n sh])
    have pos: "0 < n div 2"
      using ev nz "1.prems"(2) by (auto elim!: evenE)
    from "1.IH" [OF False r pos] have "odd m \<and> 0 < m \<and> m \<le> n div 2 \<and> sh + 1 \<le> x" .
    moreover have "n div 2 \<le> n"
      using "1.prems"(2) by simp
    ultimately show ?thesis by simp
  qed
qed

lemma expUp_bound:
  "0 < q \<Longrightarrow> 0 \<le> expUp p q \<and> p < 2 * q * 2 ^ nat (expUp p q)"
proof (induction p q rule: expUp.induct)
  case (1 p q)
  show ?case
  proof (cases "p < 2 * q")
    case True
    then show ?thesis by (simp add: expUp.simps [of p q])
  next
    case False
    with "1.prems" have c: "\<not> (q \<le> 0 \<or> p < 2 * q)" by simp
    have e: "expUp p q = expUp p (2 * q) + 1"
      using c by (simp add: expUp.simps [of p q])
    from "1.IH" [OF c] "1.prems"
    have ih: "0 \<le> expUp p (2 * q) \<and> p < 2 * (2 * q) * 2 ^ nat (expUp p (2 * q))"
      by simp
    then have "nat (expUp p (2 * q) + 1) = Suc (nat (expUp p (2 * q)))"
      by arith
    with ih show ?thesis
      by (simp add: e)
  qed
qed

lemma expDown_bound:
  "0 < q \<Longrightarrow> p < 2 * q \<Longrightarrow> expDown e p q \<le> e \<and> p * 2 ^ nat (e - expDown e p q) < 2 * q"
proof (induction e p q rule: expDown.induct)
  case (1 e p q)
  show ?case
  proof (cases "q \<le> p \<or> e \<le> - 1022")
    case True
    with "1.prems" show ?thesis by (simp add: expDown.simps [of e p q])
  next
    case False
    have d: "expDown e p q = expDown (e - 1) (2 * p) q"
      using False by (simp add: expDown.simps [of e p q])
    have "2 * p < 2 * q" using False by simp
    from "1.IH" [OF False "1.prems"(1) this]
    have ih: "expDown (e - 1) (2 * p) q \<le> e - 1
              \<and> 2 * p * 2 ^ nat (e - 1 - expDown (e - 1) (2 * p) q) < 2 * q" .
    then have "nat (e - expDown (e - 1) (2 * p) q) = Suc (nat (e - 1 - expDown (e - 1) (2 * p) q))"
      by arith
    with ih show ?thesis
      by (simp add: d mult.assoc)
  qed
qed

lemma int_div_less:
  fixes num den b :: int
  assumes "0 < den" "num < b * den"
  shows "num div den < b"
proof (rule ccontr)
  assume "\<not> num div den < b"
  then have "b \<le> num div den" by simp
  then have "b * den \<le> (num div den) * den"
    using assms(1) by (simp add: mult_right_mono)
  also have "\<dots> = num - num mod den"
    by (simp add: minus_mod_eq_div_mult)
  also have "\<dots> \<le> num"
    using assms(1) by simp
  finally show False using assms(2) by simp
qed

lemma roundTiesToEven_bound:
  assumes "0 < den" "0 \<le> num" "num < b * den"
  shows "0 \<le> roundTiesToEven num den \<and> roundTiesToEven num den \<le> b"
proof -
  have "num div den < b"
    using assms(1,3) by (rule int_div_less)
  moreover have "0 \<le> num div den"
    using assms by (simp add: pos_imp_zdiv_nonneg_iff)
  ultimately show ?thesis
    by (simp add: roundTiesToEven_def Let_def)
qed

lemma fracToDouble_mk:
  assumes p: "0 < p" and q: "0 < q"
  shows "\<exists>n sh. fracToDouble neg p q = mkNumber neg n sh \<and> 0 \<le> n \<and> n \<le> 2 ^ 53"
proof -
  define E where "E = binaryExponent p q"
  define sh where "sh = E - 52"
  define n where "n = (if 0 \<le> sh then roundTiesToEven p (q * 2 ^ nat sh)
                       else roundTiesToEven (p * 2 ^ nat (- sh)) q)"
  have fd: "fracToDouble neg p q = mkNumber neg n sh"
    unfolding fracToDouble_def n_def sh_def E_def Let_def using p by simp
  have nb: "0 \<le> n \<and> n \<le> 2 ^ 53"
  proof (cases "q \<le> p")
    case True
    then have E: "E = expUp p q" by (simp add: E_def binaryExponent_def)
    from expUp_bound [OF q, of p] have e0: "0 \<le> E" and ub: "p < 2 * q * 2 ^ nat E"
      by (simp_all add: E)
    show ?thesis
    proof (cases "0 \<le> sh")
      case True
      then have "nat E = nat sh + 52" by (simp add: sh_def)
      then have "p < 2 ^ 53 * (q * 2 ^ nat sh)"
        using ub by (simp add: power_add)
      moreover have "0 < q * 2 ^ nat sh" using q by simp
      ultimately show ?thesis
        using p True roundTiesToEven_bound [of "q * 2 ^ nat sh" p "2 ^ 53"] by (simp add: n_def)
    next
      case False
      then have "nat (- sh) + nat E = 52" using e0 by (simp add: sh_def)
      then have pw: "(2::int) ^ nat (- sh) * 2 ^ nat E = 2 ^ 52"
        by (simp add: power_add [symmetric])
      have "p * 2 ^ nat (- sh) < 2 * q * 2 ^ nat E * 2 ^ nat (- sh)"
        using ub by simp
      also have "\<dots> = 2 * q * (2 ^ nat (- sh) * 2 ^ nat E)"
        by (simp add: mult.assoc mult.commute)
      also have "\<dots> = 2 ^ 53 * q"
        by (simp add: pw)
      finally have "p * 2 ^ nat (- sh) < 2 ^ 53 * q" .
      then show ?thesis
        using p q False roundTiesToEven_bound [of q "p * 2 ^ nat (- sh)" "2 ^ 53"]
        by (simp add: n_def)
    qed
  next
    case False
    then have E: "E = expDown 0 p q" by (simp add: E_def binaryExponent_def)
    have "p < 2 * q" using False q by simp
    from expDown_bound [OF q this, of 0] have e0: "E \<le> 0" and ub: "p * 2 ^ nat (- E) < 2 * q"
      by (simp_all add: E)
    have neg_sh: "\<not> 0 \<le> sh" using e0 by (simp add: sh_def)
    have "nat (- sh) = nat (- E) + 52" using e0 by (simp add: sh_def)
    then have "p * 2 ^ nat (- sh) = p * 2 ^ nat (- E) * 2 ^ 52"
      by (simp add: power_add)
    also have "\<dots> < 2 * q * 2 ^ 52"
      using ub by simp
    finally have "p * 2 ^ nat (- sh) < 2 ^ 53 * q" by simp
    then show ?thesis
      using p q neg_sh roundTiesToEven_bound [of q "p * 2 ^ nat (- sh)" "2 ^ 53"]
      by (simp add: n_def)
  qed
  from fd nb show ?thesis by blast
qed

lemma fracToDouble_mantissa:
  assumes p: "0 < p" and q: "0 < q" and r: "fracToDouble neg p q = Num m x"
  shows "odd m \<and> (m < 0 \<longleftrightarrow> neg) \<and> \<bar>m\<bar> \<le> 2 ^ 53 \<and> of_int \<bar>m\<bar> * pow2 x < (2 ^ 1024 :: rat)"
proof -
  from fracToDouble_mk [OF p q, of neg] r obtain n sh
    where mk: "mkNumber neg n sh = Num m x" and nb: "0 \<le> n" "n \<le> 2 ^ 53"
    by auto
  obtain m' x' where st: "stripTwos n sh = (m', x')" by force
  from mk have nz: "n \<noteq> 0" by (auto simp: mkNumber_def)
  with nb have npos: "0 < n" by simp
  from mk nz st have m: "m = (if neg then - m' else m')" and x: "x = x'"
    and noinf: "\<not> (0 \<le> sh \<and> 2 ^ 1024 \<le> n * 2 ^ nat sh)"
    by (auto simp: mkNumber_def split: if_splits)
  from stripTwos_shape [OF st npos] have sh: "odd m'" "0 < m'" "m' \<le> n" by simp_all
  have abs: "\<bar>m\<bar> = m'" using m sh(2) by simp
  from stripTwos_value [OF st] have v: "of_int \<bar>m\<bar> * pow2 x = (of_int n :: rat) * pow2 sh"
    by (simp add: abs x)
  have "(of_int n :: rat) * pow2 sh < 2 ^ 1024"
  proof (cases "0 \<le> sh")
    case True
    with noinf have "n * 2 ^ nat sh < 2 ^ 1024" by simp
    then have "(of_int (n * 2 ^ nat sh) :: rat) < of_int (2 ^ 1024)"
      by (simp only: of_int_less_iff)
    with True show ?thesis by (simp add: pow2_def)
  next
    case False
    then have "pow2 sh \<le> 1" by (simp add: pow2_def divide_le_eq)
    then have "(of_int n :: rat) * pow2 sh \<le> of_int n * 1"
      using npos by (intro mult_left_mono) simp_all
    also have "\<dots> \<le> of_int (2 ^ 53)"
      using nb(2) by (simp only: mult_1_right of_int_le_iff)
    also have "\<dots> < (2 ^ 1024 :: rat)" by simp
    finally show ?thesis .
  qed
  with v sh nb m show ?thesis by auto
qed

lemmas num_eval = fracToDouble_def binaryExponent_def expUp.simps expDown.simps stripTwos.simps
  roundTiesToEven_def mkNumber_def Let_def

lemma mkNumber_cases:
  "(\<exists>b. mkNumber neg n sh = Zero b) \<or> (\<exists>b. mkNumber neg n sh = Infinity b)
   \<or> (\<exists>m x. mkNumber neg n sh = Num m x)"
  by (simp add: mkNumber_def split: prod.splits)






lemma hundred_BigNumber: "BN_of_number hundred = BFinite False 1 2"
  by (simp add: hundred_def mkFinite_def stripZeros.simps)





section \<open>Integers as numbers and as decimals\<close>

lemma stripZeros_shape:
  "stripZeros c e = (c', e') \<Longrightarrow> 0 < c \<Longrightarrow>
   0 < c' \<and> c' mod 10 \<noteq> 0 \<and> e \<le> e' \<and> c = c' * 10 ^ nat (e' - e)"
proof (induction c e rule: stripZeros.induct)
  case (1 c e)
  show ?case
  proof (cases "c mod 10 = 0")
    case True
    from "1.prems" have nz: "c \<noteq> 0" by simp
    from True nz "1.prems" have r: "stripZeros (c div 10) (e + 1) = (c', e')"
      by (simp add: stripZeros.simps [of c e])
    have pos: "0 < c div 10"
      using True "1.prems"(2) by (auto elim!: dvdE simp: mod_eq_0_iff_dvd)
    from "1.IH" [OF nz True r pos]
    have ih: "0 < c' \<and> c' mod 10 \<noteq> 0 \<and> e + 1 \<le> e' \<and> c div 10 = c' * 10 ^ nat (e' - (e + 1))" .
    then have "nat (e' - e) = Suc (nat (e' - (e + 1)))" by arith
    moreover have "c = c div 10 * 10" using True by auto
    ultimately show ?thesis using ih by simp
  next
    case False
    with "1.prems" show ?thesis by (auto simp: stripZeros.simps [of c e])
  qed
qed

lemma stripZeros_id: "c mod 10 \<noteq> 0 \<Longrightarrow> stripZeros c e = (c, e)"
  by (auto simp: stripZeros.simps [of c e])

lemma stripZeros_zero: "stripZeros 0 e = (0, 0)"
  by (simp add: stripZeros.simps [of 0 e])

lemma stripZeros_pow:
  "0 < c \<Longrightarrow> stripZeros (c * 10 ^ k) e = stripZeros c (e + int k)"
proof (induction k arbitrary: e)
  case 0
  then show ?case by simp
next
  case (Suc k)
  have "stripZeros (c * 10 ^ Suc k) e = stripZeros (c * 10 ^ Suc k div 10) (e + 1)"
    using Suc.prems by (subst stripZeros.simps) simp
  also have "c * 10 ^ Suc k div 10 = c * 10 ^ k" by simp
  also have "stripZeros (c * 10 ^ k) (e + 1) = stripZeros c (e + 1 + int k)"
    using Suc.IH [OF Suc.prems] .
  finally show ?case by (simp add: ac_simps)
qed

lemma mkFinite_canonical:
  "c mod 10 \<noteq> 0 \<Longrightarrow> mkFinite neg (c * 10 ^ k) e = BFinite neg c (e + int k)"
proof -
  assume a: "c mod 10 \<noteq> 0"
  then have "0 < c" by (cases "c = 0") simp_all
  then show ?thesis
    by (simp add: mkFinite_def stripZeros_pow stripZeros_id [OF a])
qed

lemma mkFinite_zero: "mkFinite neg 0 e = BFinite neg 0 0"
  by (simp add: mkFinite_def stripZeros_zero)

lemma BN_toNumber_mkFinite:
  assumes "0 < a" "0 \<le> ex"
  shows "BN_toNumber (mkFinite neg a ex) = fracToDouble neg (int a * 10 ^ nat ex) 1
       \<and> (\<exists>c e. mkFinite neg a ex = BFinite neg c e \<and> 0 < c \<and> c mod 10 \<noteq> 0 \<and> 0 \<le> e)"
proof -
  obtain c e where st: "stripZeros a ex = (c, e)" by force
  from stripZeros_shape [OF st assms(1)]
  have sh: "0 < c" "c mod 10 \<noteq> 0" "ex \<le> e" "a = c * 10 ^ nat (e - ex)" by simp_all
  have mk: "mkFinite neg a ex = BFinite neg c e" by (simp add: mkFinite_def st)
  have "nat e = nat (e - ex) + nat ex" using sh(3) assms(2) by arith
  then have "int c * 10 ^ nat e = int a * 10 ^ nat ex"
    by (simp add: sh(4) power_add)
  moreover have "BN_toNumber (BFinite neg c e) = fracToDouble neg (int c * 10 ^ nat e) 1"
    using sh(1,3) assms(2) by simp
  ultimately have "BN_toNumber (mkFinite neg a ex) = fracToDouble neg (int a * 10 ^ nat ex) 1"
    by (simp only: mk)
  moreover have "0 \<le> e" using sh(3) assms(2) by simp
  ultimately show ?thesis
    using sh(1,2) mk by blast
qed

lemma mkNumber_sign:
  "mkNumber neg n sh = Num m x \<Longrightarrow> mkNumber neg' n sh = Num (if neg' = neg then m else - m) x"
  by (auto simp: mkNumber_def split: if_splits prod.splits)

lemma fracToDouble_unfold:
  "p \<noteq> 0 \<Longrightarrow>
   fracToDouble neg p q
     = mkNumber neg
         (if 0 \<le> binaryExponent p q - 52
          then roundTiesToEven p (q * 2 ^ nat (binaryExponent p q - 52))
          else roundTiesToEven (p * 2 ^ nat (- (binaryExponent p q - 52))) q)
         (binaryExponent p q - 52)"
  by (simp add: fracToDouble_def Let_def)

lemma fracToDouble_sign:
  assumes "fracToDouble neg p q = Num m x"
  shows "fracToDouble neg' p q = Num (if neg' = neg then m else - m) x"
proof -
  from assms have p: "p \<noteq> 0" by (auto simp: fracToDouble_def)
  from assms show ?thesis
    unfolding fracToDouble_unfold [OF p] by (rule mkNumber_sign)
qed

lemma decUp_bound:
  "0 < q \<Longrightarrow> q \<le> p \<Longrightarrow> 0 \<le> decUp p q \<and> q * 10 ^ nat (decUp p q) \<le> p"
proof (induction p q rule: decUp.induct)
  case (1 p q)
  show ?case
  proof (cases "p < 10 * q")
    case True
    with "1.prems" show ?thesis by (simp add: decUp.simps [of p q])
  next
    case False
    with "1.prems" have c: "\<not> (q \<le> 0 \<or> p < 10 * q)" by simp
    have e: "decUp p q = decUp p (10 * q) + 1"
      using c by (simp add: decUp.simps [of p q])
    from "1.IH" [OF c] "1.prems" False
    have ih: "0 \<le> decUp p (10 * q) \<and> 10 * q * 10 ^ nat (decUp p (10 * q)) \<le> p"
      by simp
    then have "nat (decUp p (10 * q) + 1) = Suc (nat (decUp p (10 * q)))"
      by arith
    with ih show ?thesis
      by (simp add: e mult.assoc)
  qed
qed


lemma shortestDecimal_integer:
  assumes F: "fracToDouble False N 1 = Num a x"
      and N: "0 < N"
      and D: "D = decimalExponent N 1"
      and k: "1 \<le> k" "k \<le> D + 1" "D + 1 \<le> 1100"
  shows "\<exists>c e. shortestDecimal (Num a x) N 1 k = BFinite False c e \<and> 0 < c \<and> c mod 10 \<noteq> 0
               \<and> 0 \<le> e \<and> BN_toNumber (BFinite False c e) = Num a x"
  using k
proof (induction "nat (D + 1 - k)" arbitrary: k)
  case 0
  then have kD: "k = D + 1" by simp
  define lo where "lo = N div 1"
  have lo: "lo = N" by (simp add: lo_def)
  have ok: "BN_toNumber (mkFinite False (nat N) 0) = Num a x"
    using BN_toNumber_mkFinite [of "nat N" 0 False] N F by simp
  have "shortestDecimal (Num a x) N 1 k = mkFinite False (nat N) 0"
    using "0.prems" ok
    by (subst shortestDecimal.simps [of _ _ _ k]) (simp add: Let_def kD D)
  moreover from BN_toNumber_mkFinite [of "nat N" 0 False] N
  obtain c e where m: "mkFinite False (nat N) 0 = BFinite False c e" "0 < c" "c mod 10 \<noteq> 0" "0 \<le> e"
    by auto
  moreover have "BN_toNumber (BFinite False c e) = Num a x"
    using ok unfolding m(1) .
  ultimately show ?case by (simp del: BN_toNumber.simps)
next
  case (Suc j)
  then have kD: "k \<le> D" by simp
  define ex where "ex = D + 1 - k"
  have ex: "0 \<le> ex" using Suc.prems by (simp add: ex_def)
  define lo where "lo = N div (1 * 10 ^ nat ex)"
  define hi where "hi = lo + 1"
  define oklo where "oklo \<longleftrightarrow> BN_toNumber (mkFinite False (nat lo) ex) = Num a x"
  define okhi where "okhi \<longleftrightarrow> BN_toNumber (mkFinite False (nat hi) ex) = Num a x"
  define rlo where "rlo = N mod (1 * 10 ^ nat ex)"
  define rhi where "rhi = 1 * 10 ^ nat ex - rlo"
  have unf: "shortestDecimal (Num a x) N 1 k =
        (if oklo \<and> (\<not> okhi \<or> rlo < rhi \<or> (rlo = rhi \<and> even lo))
         then mkFinite False (nat lo) ex
         else if okhi then mkFinite False (nat hi) ex
         else shortestDecimal (Num a x) N 1 (k + 1))"
    unfolding oklo_def okhi_def rhi_def rlo_def hi_def lo_def ex_def D
    using Suc.prems
    by (auto simp add: shortestDecimal.simps [of _ _ _ k] Let_def D)
  have cand: "\<exists>c e. mkFinite False n ex = BFinite False c e \<and> 0 < c \<and> c mod 10 \<noteq> 0
               \<and> 0 \<le> e \<and> BN_toNumber (BFinite False c e) = Num a x"
    if "BN_toNumber (mkFinite False n ex) = Num a x" for n
  proof -
    have "0 < n"
    proof (rule ccontr)
      assume "\<not> 0 < n"
      then have "n = 0" by simp
      with that show False by (simp add: mkFinite_zero)
    qed
    from BN_toNumber_mkFinite [OF this ex, of False]
    obtain c e where m: "mkFinite False n ex = BFinite False c e" "0 < c" "c mod 10 \<noteq> 0" "0 \<le> e"
      by blast
    have "BN_toNumber (BFinite False c e) = Num a x"
      using that unfolding m(1) .
    with m show ?thesis by blast
  qed
  show ?case
  proof (cases "oklo \<and> (\<not> okhi \<or> rlo < rhi \<or> (rlo = rhi \<and> even lo))")
    case True
    then have r: "shortestDecimal (Num a x) N 1 k = mkFinite False (nat lo) ex"
      unfolding unf by simp
    from True have "BN_toNumber (mkFinite False (nat lo) ex) = Num a x"
      by (simp add: oklo_def)
    from cand [OF this] show ?thesis unfolding r .
  next
    case False
    show ?thesis
    proof (cases okhi)
      case True
      with False have r: "shortestDecimal (Num a x) N 1 k = mkFinite False (nat hi) ex"
        unfolding unf by auto
      from True have "BN_toNumber (mkFinite False (nat hi) ex) = Num a x"
        by (simp add: okhi_def)
      from cand [OF this] show ?thesis unfolding r .
    next
      case nh: False
      with False have r: "shortestDecimal (Num a x) N 1 k = shortestDecimal (Num a x) N 1 (k + 1)"
        unfolding unf by auto
      have "j = nat (D + 1 - (k + 1))" using Suc.hyps(2) by simp
      moreover have "1 \<le> k + 1" "k + 1 \<le> D + 1" "D + 1 \<le> 1100"
        using Suc.prems kD by simp_all
      ultimately show ?thesis
        unfolding r by (rule Suc.hyps(1))
    qed
  qed
qed


lemma wellFormed_integer:
  assumes wf: "wellFormedNumber (Num m x)" and int: "Number_isInteger (Num m x)"
  shows "0 \<le> x \<and> m \<noteq> 0 \<and> fracToDouble (m < 0) (\<bar>m\<bar> * 2 ^ nat x) 1 = Num m x
       \<and> \<bar>m\<bar> * 2 ^ nat x < 2 ^ 1024"
proof -
  have nz: "m \<noteq> 0"
  proof
    assume "m = 0"
    with wf show False by (simp add: fracToDouble_def split: if_splits)
  qed
  have x: "0 \<le> x"
  proof (rule ccontr)
    assume neg: "\<not> 0 \<le> x"
    with wf have "fracToDouble (m < 0) \<bar>m\<bar> (2 ^ nat (- x)) = Num m x" by simp
    from fracToDouble_mantissa [OF _ _ this] nz have "odd m" by simp
    moreover from int neg have "m mod 2 ^ nat (- x) = 0" by simp
    then have "2 ^ nat (- x) dvd m" by (simp add: mod_eq_0_iff_dvd)
    moreover have "(2::int) dvd 2 ^ nat (- x)" using neg by (simp add: dvd_power)
    ultimately show False using dvd_trans by blast
  qed
  with wf have F: "fracToDouble (m < 0) (\<bar>m\<bar> * 2 ^ nat x) 1 = Num m x" by simp
  from fracToDouble_mantissa [OF _ _ F] nz
  have "of_int \<bar>m\<bar> * pow2 x < (2 ^ 1024 :: rat)" by simp
  then have "(of_int (\<bar>m\<bar> * 2 ^ nat x) :: rat) < of_int (2 ^ 1024)"
    using x by (simp add: pow2_def)
  then have "\<bar>m\<bar> * 2 ^ nat x < 2 ^ 1024"
    by (simp only: of_int_less_iff)
  with nz x F show ?thesis by simp
qed

lemma BN_of_number_integer:
  assumes wf: "wellFormedNumber (Num m x)" and int: "Number_isInteger (Num m x)"
  shows "\<exists>c e. BN_of_number (Num m x) = BFinite (m < 0) c e \<and> 0 < c \<and> c mod 10 \<noteq> 0 \<and> 0 \<le> e
               \<and> BN_toNumber (BFinite (m < 0) c e) = Num m x"
proof -
  define N where "N = \<bar>m\<bar> * 2 ^ nat x"
  from wellFormed_integer [OF wf int]
  have x: "0 \<le> x" and nz: "m \<noteq> 0" and F: "fracToDouble (m < 0) N 1 = Num m x"
    and big: "N < 2 ^ 1024"
    by (simp_all add: N_def)
  have N: "0 < N" using nz by (simp add: N_def)
  show ?thesis
  proof (cases "N < 2 ^ 31")
    case True
    then have b: "BN_of_number (Num m x) = mkFinite (m < 0) (nat N) 0"
      using x by (simp add: N_def)
    from BN_toNumber_mkFinite [of "nat N" 0 "m < 0"] N
    obtain c e where mk: "mkFinite (m < 0) (nat N) 0 = BFinite (m < 0) c e"
      and sh: "0 < c" "c mod 10 \<noteq> 0" "0 \<le> e"
      and tn: "BN_toNumber (mkFinite (m < 0) (nat N) 0) = fracToDouble (m < 0) N 1"
      by auto
    have "BN_toNumber (BFinite (m < 0) c e) = Num m x"
      using tn F unfolding mk by simp
    with sh show ?thesis unfolding b mk by blast
  next
    case False
    define D where "D = decimalExponent N 1"
    have "D = decUp N 1" using N by (simp add: D_def decimalExponent_def)
    with decUp_bound [of 1 N] N have D0: "0 \<le> D" and lowb: "10 ^ nat D \<le> N" by simp_all
    have "(2::int) ^ nat D \<le> 10 ^ nat D"
      by (rule power_mono) simp_all
    also note lowb
    also note big
    finally have "(2::int) ^ nat D < 2 ^ 1024" .
    then have "nat D < 1024" by (rule power_less_imp_less_exp [rotated]) simp
    then have D1: "D + 1 \<le> 1100" by simp
    have F': "fracToDouble False N 1 = Num \<bar>m\<bar> x"
      using fracToDouble_sign [OF F, of False] by (auto split: if_splits)
    from shortestDecimal_integer [OF F' N D_def _ _ D1, of 1] D0
    obtain c e where sd: "shortestDecimal (Num \<bar>m\<bar> x) N 1 1 = BFinite False c e"
      and sh: "0 < c" "c mod 10 \<noteq> 0" "0 \<le> e"
      and tn: "BN_toNumber (BFinite False c e) = Num \<bar>m\<bar> x"
      by auto
    have nf: "\<not> \<bar>m\<bar> * 2 ^ nat x < 2 ^ 31"
      using False by (simp add: N_def)
    have "BN_of_number (Num m x)
            = (if m < 0 then BN_negated (shortestDecimal (Num \<bar>m\<bar> x) N 1 1)
               else shortestDecimal (Num \<bar>m\<bar> x) N 1 1)"
      unfolding N_def by (simp only: BN_of_number.simps Let_def nf x if_True if_False simp_thms)
    then have b: "BN_of_number (Num m x) = BFinite (m < 0) c e"
      unfolding sd by simp
    from tn sh have "fracToDouble False (int c * 10 ^ nat e) 1 = Num \<bar>m\<bar> x" by simp
    from fracToDouble_sign [OF this, of "m < 0"]
    have "fracToDouble (m < 0) (int c * 10 ^ nat e) 1 = Num m x"
      by (auto split: if_splits)
    then have "BN_toNumber (BFinite (m < 0) c e) = Num m x"
      using sh by simp
    with sh show ?thesis unfolding b by blast
  qed
qed

lemma dividedBy_hundred:
  assumes c: "c mod 10 \<noteq> 0" and e: "0 \<le> e" and dp: "2 \<le> DECIMAL_PLACES cfg"
  shows "BN_dividedBy cfg (BFinite neg c e) (BFinite False 1 2) = BFinite neg c (e - 2)"
proof -
  have nz: "c \<noteq> 0" using c by (cases "c = 0") simp_all
  define k where "k = e - 2 + int (DECIMAL_PLACES cfg)"
  have k: "0 \<le> k" using e dp by (simp add: k_def)
  have "BN_dividedBy cfg (BFinite neg c e) (BFinite False 1 2)
          = mkFinite neg ((2 * (c * 10 ^ nat k) + 1) div 2) (- int (DECIMAL_PLACES cfg))"
    using nz k by (simp add: Let_def k_def)
  also have "(2 * (c * 10 ^ nat k) + 1) div 2 = c * 10 ^ nat k" by simp
  also have "mkFinite neg (c * 10 ^ nat k) (- int (DECIMAL_PLACES cfg))
               = BFinite neg c (- int (DECIMAL_PLACES cfg) + int (nat k))"
    using c by (rule mkFinite_canonical)
  also have "- int (DECIMAL_PLACES cfg) + int (nat k) = e - 2"
    using k by (simp add: k_def)
  finally show ?thesis .
qed

lemma times_hundred:
  assumes c: "c mod 10 \<noteq> 0"
  shows "BN_times (BFinite neg c e) (BFinite False 1 2) = BFinite neg c (e + 2)"
  using mkFinite_canonical [OF c, of neg 0 "e + 2"] by simp

section \<open>Currency mismatch\<close>

text \<open>
  Claim C1. Two \<^verbatim>\<open>Money\<close> values whose currency codes differ: \<^verbatim>\<open>add\<close>,
  \<^verbatim>\<open>subtract\<close>, the four order comparisons, the instance \<^verbatim>\<open>min\<close> and \<^verbatim>\<open>max\<close> and the
  static \<^verbatim>\<open>sum\<close>, \<^verbatim>\<open>min\<close> and \<^verbatim>\<open>max\<close> of the two all throw the currency-mismatch
  error of the operation, and \<^verbatim>\<open>isEqual\<close> returns \<^verbatim>\<open>false\<close> without throwing. The two
  values are the objects at the references \<open>this\<close> and \<open>other\<close> of a store.
\<close>

theorem currency_mismatch:
  assumes "currencyCode (h this) \<noteq> currencyCode (h other)"
  shows "Money_add (h this) (h other)
           = Inl (Error ''Cannot add money with different currency codes'')
       \<and> Money_subtract (h this) (h other)
           = Inl (Error ''Cannot subtract money with different currency codes'')
       \<and> Money_isLessThan (h this) (h other) = Inl (Error comparementError)
       \<and> Money_isLessThanOrEqual (h this) (h other) = Inl (Error comparementError)
       \<and> Money_isGreaterThan (h this) (h other) = Inl (Error comparementError)
       \<and> Money_isGreaterThanOrEqual (h this) (h other) = Inl (Error comparementError)
       \<and> Money_min h this other = Inl (Error comparementError)
       \<and> Money_max h this other = Inl (Error comparementError)
       \<and> Money_sum [h this, h other] = Inl (Error sumError)
       \<and> Money_min_static [h this, h other] = Inl (Error comparementError)
       \<and> Money_max_static [h this, h other] = Inl (Error comparementError)
       \<and> Money_isEqual (h this) (AMoney (h other)) = Inr False"
proof -
  have ne: "currencyCode (h other) \<noteq> currencyCode (h this)"
    using assms by simp
  have arith: "Money_add (h this) (h other)
                 = Inl (Error ''Cannot add money with different currency codes'')"
              "Money_subtract (h this) (h other)
                 = Inl (Error ''Cannot subtract money with different currency codes'')"
    using assms by (simp_all add: Money_add_def Money_subtract_def)
  have order: "Money_isLessThan (h this) (h other) = Inl (Error comparementError)"
              "Money_isLessThanOrEqual (h this) (h other) = Inl (Error comparementError)"
              "Money_isGreaterThan (h this) (h other) = Inl (Error comparementError)"
              "Money_isGreaterThanOrEqual (h this) (h other) = Inl (Error comparementError)"
    using assms
    by (simp_all add: Money_isLessThan_def Money_isLessThanOrEqual_def
          Money_isGreaterThan_def Money_isGreaterThanOrEqual_def)
  have pick: "Money_min h this other = Inl (Error comparementError)"
             "Money_max h this other = Inl (Error comparementError)"
    using assms by (simp_all add: Money_min_def Money_max_def)
  have static: "Money_sum [h this, h other] = Inl (Error sumError)"
               "Money_min_static [h this, h other] = Inl (Error comparementError)"
               "Money_max_static [h this, h other] = Inl (Error comparementError)"
    using ne by (simp_all add: Money_sum_def Money_min_static_def Money_max_static_def)
  have eq: "Money_isEqual (h this) (AMoney (h other)) = Inr False"
    using assms by simp
  from arith order pick static eq show ?thesis by simp
qed

theorem currency_mismatch_witness:
  "currencyCode (usdEurStore 0) \<noteq> currencyCode (usdEurStore 1)
   \<and> Money_add usd100 eur50 = Inl (Error ''Cannot add money with different currency codes'')
   \<and> Money_min usdEurStore 0 1 = Inl (Error comparementError)
   \<and> Money_sum [usd100, eur50] = Inl (Error sumError)
   \<and> Money_isEqual usd100 (AMoney eur50) = Inr False"
proof -
  have h: "currencyCode (usdEurStore 0) \<noteq> currencyCode (usdEurStore 1)"
    by (simp add: usdEurStore_def usd100_def eur50_def)
  have s: "usdEurStore 0 = usd100" "usdEurStore 1 = eur50"
    by (simp_all add: usdEurStore_def)
  from currency_mismatch [OF h] h show ?thesis
    unfolding s by simp
qed

section \<open>Transfer records\<close>

text \<open>
  Claim C2. A transfer record whose amount matches the pattern of the record and is in
  minimal form is expected to come back from \<^verbatim>\<open>fromMoneyDto\<close> and \<^verbatim>\<open>toMoneyDto\<close> with
  the same amount string. The record \<^verbatim>\<open>{amount: "0.0000001", currency: "USD"}\<close> does
  not: its amount matches the pattern, it is read as the decimal \<open>1 * 10 ^ -7\<close>, and
  \<^verbatim>\<open>toMoneyDto\<close> writes that decimal as \<^verbatim>\<open>1e-7\<close>, which is another string and one the
  pattern of \<^verbatim>\<open>MoneyDto.amount\<close> itself rejects.
\<close>

theorem small_amount_round_trip:
  "matchesAmountPattern (amount dtoSmall)
   \<and> fromMoneyDto dtoSmall
       = Inr \<lparr> mvalue = \<lparr> zvalue = BFinite False 1 (- 7) \<rparr>, currencyCode = ''USD'' \<rparr>
   \<and> amount (toMoneyDto \<lparr> mvalue = \<lparr> zvalue = BFinite False 1 (- 7) \<rparr>,
                           currencyCode = ''USD'' \<rparr>) = ''1e-7''
   \<and> \<not> matchesAmountPattern ''1e-7''"
proof -
  have m: "matchesAmountPattern ''0.0000001''"
    by (simp add: matchesAmountPattern_def splitAt_def isDigit_def)
  have p: "BN_of_string ''0.0000001'' = BFinite False 1 (- 7)"
    by (simp add: bn_eval)
  have f: "fromMoneyDto dtoSmall
             = Inr \<lparr> mvalue = \<lparr> zvalue = BFinite False 1 (- 7) \<rparr>, currencyCode = ''USD'' \<rparr>"
    using Money_new_finite [OF valid_USD, of "BFinite False 1 (- 7)"]
    by (simp add: fromMoneyDto_def dtoSmall_def p)
  have t: "BN_toString (BFinite False 1 (- 7)) = ''1e-7''"
    by (simp add: bn_eval)
  have n: "\<not> matchesAmountPattern ''1e-7''"
    by (simp add: matchesAmountPattern_def splitAt_def isDigit_def)
  from m f t n show ?thesis
    by (simp add: toMoneyDto_def ZanNumber_toString_def dtoSmall_def del: BN_toString.simps)
qed

section \<open>Minimum and maximum of two instances\<close>

text \<open>
  Claim C3. The instance methods \<^verbatim>\<open>min\<close> and \<^verbatim>\<open>max\<close> return one of the two objects, and
  the receiver is expected when the two values are equal. With two distinct objects of
  value 100 USD at the references 0 (the receiver) and 1 (the argument), both methods
  return the reference 1, the argument.
\<close>

theorem min_max_equal_values:
  "Money_min twoEqualStore 0 1 = Inr 1 \<and> Money_max twoEqualStore 0 1 = Inr 1"
  by (simp add: Money_min_def Money_max_def Money_isLessThan_def Money_isGreaterThan_def
        ZanNumber_isLessThan_def ZanNumber_isGreaterThan_def BN_isLessThan_def
        BN_isGreaterThan_def compare_def twoEqualStore_def usd100_def)

section \<open>Equality of decimal values\<close>

text \<open>
  Claim C4, as amended. \<^verbatim>\<open>ZanNumber.isEqual\<close> never throws on a \<^verbatim>\<open>ZanNumber\<close> argument
  and compares the two values. Any other argument is first handed to the constructor,
  and whatever the constructor throws is thrown by \<^verbatim>\<open>isEqual\<close>: a value that is neither
  a \<^verbatim>\<open>BigNumber\<close>, a number nor a string, a NaN or infinite number or \<^verbatim>\<open>BigNumber\<close>
  and a string that is not a number all throw instead of comparing unequal.
\<close>

theorem ZanNumber_isEqual_cases:
  "ZanNumber_isEqual this (CZanNumber d) = Inr (BN_isEqualTo (zvalue this) (zvalue d))
   \<and> ZanNumber_isEqual this (CValue VOther)
       = Inl (Error ''Invalid ZanNumber input type: must be BigNumber, number, or string'')
   \<and> ZanNumber_isEqual this (CValue (VNumber NNaN))
       = Inl (Error ''Invalid ZanNumber number value: must be finite and not NaN'')
   \<and> ZanNumber_isEqual this (CValue (VNumber (Infinity neg)))
       = Inl (Error ''Invalid ZanNumber number value: must be finite and not NaN'')
   \<and> ZanNumber_isEqual this (CValue (VBigNumber BNaN))
       = Inl (Error ''Invalid ZanNumber BigNumber value: must be finite and not NaN'')
   \<and> ZanNumber_isEqual this (CValue (VBigNumber (BInfinity neg)))
       = Inl (Error ''Invalid ZanNumber BigNumber value: must be finite and not NaN'')
   \<and> ZanNumber_isEqual this (CValue (VString ''abc''))
       = Inl (Error ''Invalid ZanNumber string format: must be finite and not NaN'')
   \<and> (\<forall>v e. ZanNumber_new v = Inl e \<longrightarrow> ZanNumber_isEqual this (CValue v) = Inl e)"
proof -
  have s: "BN_of_string ''abc'' = BNaN"
    by (simp add: bn_eval)
  show ?thesis
    by (simp add: ZanNumber_isEqual_def s)
qed

theorem ZanNumber_isEqual_cases_witness:
  "ZanNumber_isEqual zanOne (CZanNumber zanOne) = Inr True
   \<and> ZanNumber_new VOther
       = Inl (Error ''Invalid ZanNumber input type: must be BigNumber, number, or string'')
   \<and> ZanNumber_isEqual zanOne (CValue VOther)
       = Inl (Error ''Invalid ZanNumber input type: must be BigNumber, number, or string'')"
  using ZanNumber_isEqual_cases [of zanOne zanOne]
  by (simp add: zanOne_def BN_isEqualTo_def compare_def)

text \<open>
  Claim C4 as stated fails: with the number NaN as its argument \<^verbatim>\<open>isEqual\<close> throws.
\<close>

theorem ZanNumber_isEqual_NaN_raises:
  "ZanNumber_isEqual zanOne (CValue (VNumber NNaN))
     = Inl (Error ''Invalid ZanNumber number value: must be finite and not NaN'')"
  by (simp add: ZanNumber_isEqual_def)

section \<open>Aggregation of no and of one operand\<close>

text \<open>
  Claim C5, as amended. With no operand the static \<^verbatim>\<open>Money.sum\<close>, \<^verbatim>\<open>Money.min\<close> and
  \<^verbatim>\<open>Money.max\<close> throw their empty-array error, and \<^verbatim>\<open>ZanNumber.sum\<close>,
  \<^verbatim>\<open>ZanNumber.min\<close> and \<^verbatim>\<open>ZanNumber.max\<close> throw the constructor's error for a
  \<^verbatim>\<open>BigNumber\<close> that is not finite (the library's aggregate of nothing is NaN). With one
  operand all six return a value equal to that operand.
\<close>

theorem aggregation_zero_and_one_operand:
  "Money_sum [] = Inl (Error ''Cannot sum empty array'')
   \<and> Money_min_static [] = Inl (Error ''Cannot get min of empty array'')
   \<and> Money_max_static [] = Inl (Error ''Cannot get max of empty array'')
   \<and> ZanNumber_sum []
       = Inl (Error ''Invalid ZanNumber BigNumber value: must be finite and not NaN'')
   \<and> ZanNumber_min []
       = Inl (Error ''Invalid ZanNumber BigNumber value: must be finite and not NaN'')
   \<and> ZanNumber_max []
       = Inl (Error ''Invalid ZanNumber BigNumber value: must be finite and not NaN'')
   \<and> (BN_isFinite (zvalue z) \<longrightarrow>
         ZanNumber_sum [z] = Inr z \<and> ZanNumber_min [z] = Inr z \<and> ZanNumber_max [z] = Inr z)
   \<and> (BN_isFinite (zvalue (mvalue m)) \<and> isValidCurrencyCode (currencyCode m) \<longrightarrow>
         Money_sum [m] = Inr m \<and> Money_min_static [m] = Inr m \<and> Money_max_static [m] = Inr m)"
proof -
  have empty_money:
    "Money_sum [] = Inl (Error ''Cannot sum empty array'')"
    "Money_min_static [] = Inl (Error ''Cannot get min of empty array'')"
    "Money_max_static [] = Inl (Error ''Cannot get max of empty array'')"
    by (simp_all add: Money_sum_def Money_min_static_def Money_max_static_def)
  have empty_zan:
    "ZanNumber_sum []
       = Inl (Error ''Invalid ZanNumber BigNumber value: must be finite and not NaN'')"
    "ZanNumber_min []
       = Inl (Error ''Invalid ZanNumber BigNumber value: must be finite and not NaN'')"
    "ZanNumber_max []
       = Inl (Error ''Invalid ZanNumber BigNumber value: must be finite and not NaN'')"
    by (simp_all add: ZanNumber_sum_def ZanNumber_min_def ZanNumber_max_def
          BN_min_def BN_max_def)
  have one_zan: "ZanNumber_sum [y] = Inr y \<and> ZanNumber_min [y] = Inr y \<and> ZanNumber_max [y] = Inr y"
    if "BN_isFinite (zvalue y)" for y
    using that
    by (cases "zvalue y")
       (simp_all add: ZanNumber_sum_def ZanNumber_min_def ZanNumber_max_def
          BN_min_def BN_max_def)
  have one_money: "Money_sum [m] = Inr m \<and> Money_min_static [m] = Inr m \<and> Money_max_static [m] = Inr m"
    if fin: "BN_isFinite (zvalue (mvalue m))" and cur: "isValidCurrencyCode (currencyCode m)"
  proof -
    have z: "ZanNumber_sum [mvalue m] = Inr (mvalue m)"
            "ZanNumber_min [mvalue m] = Inr (mvalue m)"
            "ZanNumber_max [mvalue m] = Inr (mvalue m)"
      using one_zan [OF fin] by simp_all
    have n: "Money_new (VBigNumber (zvalue (mvalue m))) (currencyCode m) = Inr m"
      using Money_new_finite [OF cur fin] by simp
    show ?thesis
      by (simp add: Money_sum_def Money_min_static_def Money_max_static_def z
            ZanNumber_toBigNumber_def n)
  qed
  from empty_money empty_zan one_zan one_money show ?thesis
    by blast
qed

theorem aggregation_zero_and_one_operand_witness:
  "BN_isFinite (zvalue zanOne)
   \<and> BN_isFinite (zvalue (mvalue usd100)) \<and> isValidCurrencyCode (currencyCode usd100)
   \<and> ZanNumber_sum [zanOne] = Inr zanOne \<and> Money_max_static [usd100] = Inr usd100
   \<and> Money_sum [] = Inl (Error ''Cannot sum empty array'')"
  using aggregation_zero_and_one_operand [of zanOne usd100]
  by (simp add: zanOne_def usd100_def isValidCurrencyCode_def CurrencyEnum_def)

text \<open>
  Claim C5 as stated fails for the decimal core: the error \<^verbatim>\<open>ZanNumber.sum\<close> throws for
  no operand is not one of the empty-array errors.
\<close>

theorem ZanNumber_empty_aggregation:
  "ZanNumber_sum [] = Inl (Error ''Invalid ZanNumber BigNumber value: must be finite and not NaN'')
   \<and> Error ''Invalid ZanNumber BigNumber value: must be finite and not NaN''
       \<notin> set emptySequenceErrors"
  by (simp add: ZanNumber_sum_def emptySequenceErrors_def)

section \<open>Exact addition\<close>


section \<open>Records handed to fromAnyOrThrow\<close>



section \<open>Rounding\<close>

text \<open>
  Claim C6. \<^verbatim>\<open>round(scale)\<close> of a decimal value, for a scale the library accepts (an
  integer from 0 to 1e9), rounds the magnitude half up at \<open>scale\<close> fractional digits and
  keeps the sign: the result is \<open>\<lfloor>|v| * 10 ^ scale + 1/2\<rfloor> / 10 ^ scale\<close> with the sign of
  \<open>v\<close>. Rounding 104.45 to one digit gives 104.5, 104.44 gives 104.4 and -104.45 gives
  -104.5.
\<close>

theorem round_half_away_from_zero:
  assumes fin: "BN_isFinite (zvalue z)" and lo: "0 \<le> s" and hi: "s \<le> BN_MAX"
  shows "(\<exists>r. ZanNumber_round cfg z (Some s) = Inr r
            \<and> BN_value (zvalue r)
                = (if BN_value (zvalue z) < 0 then - 1 else 1)
                  * of_int \<lfloor>\<bar>BN_value (zvalue z)\<bar> * 10 ^ nat s + 1 / 2\<rfloor> / 10 ^ nat s)
       \<and> ZanNumber_round cfg \<lparr> zvalue = BN_of_string ''104.45'' \<rparr> (Some 1)
           = Inr \<lparr> zvalue = BN_of_string ''104.5'' \<rparr>
       \<and> ZanNumber_round cfg \<lparr> zvalue = BN_of_string ''104.44'' \<rparr> (Some 1)
           = Inr \<lparr> zvalue = BN_of_string ''104.4'' \<rparr>
       \<and> ZanNumber_round cfg \<lparr> zvalue = BN_of_string ''-104.45'' \<rparr> (Some 1)
           = Inr \<lparr> zvalue = BN_of_string ''-104.5'' \<rparr>"
proof -
  obtain neg c e where v: "zvalue z = BFinite neg c e"
    using fin by (cases "zvalue z") simp_all
  have dp: "BN_decimalPlaces s (zvalue z) = Inr (roundHalfUp (nat s) (zvalue z))"
    using lo hi by (simp add: BN_decimalPlaces_def)
  have f: "BN_isFinite (roundHalfUp (nat s) (zvalue z))"
    using fin by (rule BN_isFinite_roundHalfUp)
  then have n: "ZanNumber_new (VBigNumber (roundHalfUp (nat s) (zvalue z)))
                  = Inr \<lparr> zvalue = roundHalfUp (nat s) (zvalue z) \<rparr>"
    by (rule ZanNumber_new_finite)
  have r: "ZanNumber_round cfg z (Some s) = Inr \<lparr> zvalue = roundHalfUp (nat s) (zvalue z) \<rparr>"
    by (simp add: ZanNumber_round_def scaleOrDefault_def dp n del: ZanNumber_new.simps)
  have val: "BN_value (roundHalfUp (nat s) (zvalue z))
               = (if BN_value (zvalue z) < 0 then - 1 else 1)
                 * of_int \<lfloor>\<bar>BN_value (zvalue z)\<bar> * 10 ^ nat s + 1 / 2\<rfloor> / 10 ^ nat s"
    unfolding v roundHalfUp_value BN_value_abs BN_value_sign ..
  have general: "\<exists>r. ZanNumber_round cfg z (Some s) = Inr r
            \<and> BN_value (zvalue r)
                = (if BN_value (zvalue z) < 0 then - 1 else 1)
                  * of_int \<lfloor>\<bar>BN_value (zvalue z)\<bar> * 10 ^ nat s + 1 / 2\<rfloor> / 10 ^ nat s"
    using r val by simp
  have p1: "BN_of_string ''104.45'' = BFinite False 10445 (- 2)"
    and p2: "BN_of_string ''104.5'' = BFinite False 1045 (- 1)"
    and p3: "BN_of_string ''104.44'' = BFinite False 10444 (- 2)"
    and p4: "BN_of_string ''104.4'' = BFinite False 1044 (- 1)"
    and p5: "BN_of_string ''-104.45'' = BFinite True 10445 (- 2)"
    and p6: "BN_of_string ''-104.5'' = BFinite True 1045 (- 1)"
    by (simp_all add: bn_eval)
  have ex: "ZanNumber_round cfg \<lparr> zvalue = BN_of_string ''104.45'' \<rparr> (Some 1)
              = Inr \<lparr> zvalue = BN_of_string ''104.5'' \<rparr>"
           "ZanNumber_round cfg \<lparr> zvalue = BN_of_string ''104.44'' \<rparr> (Some 1)
              = Inr \<lparr> zvalue = BN_of_string ''104.4'' \<rparr>"
           "ZanNumber_round cfg \<lparr> zvalue = BN_of_string ''-104.45'' \<rparr> (Some 1)
              = Inr \<lparr> zvalue = BN_of_string ''-104.5'' \<rparr>"
    unfolding p1 p2 p3 p4 p5 p6
    by (simp_all add: ZanNumber_round_def scaleOrDefault_def BN_decimalPlaces_def BN_MAX_def
          mkFinite_def stripZeros.simps)
  from general ex show ?thesis
    by blast
qed

theorem round_half_away_from_zero_witness:
  "BN_isFinite (zvalue zan10445) \<and> (0::int) \<le> 1 \<and> 1 \<le> BN_MAX
   \<and> ZanNumber_round defaultConfig zan10445 (Some 1) = Inr \<lparr> zvalue = BFinite True 1045 (- 1) \<rparr>
   \<and> BN_value (BFinite True 1045 (- 1))
       = (if BN_value (zvalue zan10445) < 0 then - 1 else 1)
         * of_int \<lfloor>\<bar>BN_value (zvalue zan10445)\<bar> * 10 ^ nat 1 + 1 / 2\<rfloor> / 10 ^ nat 1"
proof -
  have a: "BN_isFinite (zvalue zan10445)" by (simp add: zan10445_def)
  have b: "(0::int) \<le> 1" by simp
  have c: "1 \<le> BN_MAX" by (simp add: BN_MAX_def)
  have r: "ZanNumber_round defaultConfig zan10445 (Some 1)
             = Inr \<lparr> zvalue = BFinite True 1045 (- 1) \<rparr>"
    by (simp add: ZanNumber_round_def scaleOrDefault_def BN_decimalPlaces_def BN_MAX_def
          zan10445_def mkFinite_def stripZeros.simps)
  from round_half_away_from_zero [OF a b c, of defaultConfig] r a c show ?thesis
    by auto
qed

section \<open>Cents\<close>




text \<open>
  Claim C8, as amended. With \<^verbatim>\<open>DECIMAL_PLACES\<close> set to 2 or more (the default is 20)
  and a recognised currency, \<^verbatim>\<open>fromCents\<close> of a number that is an integer returns a
  \<^verbatim>\<open>Money\<close> whose \<^verbatim>\<open>toCents\<close> is that number again, and \<^verbatim>\<open>fromCents\<close> of a number that
  is not an integer or not finite throws \<^verbatim>\<open>Cents must be an integer\<close>.
\<close>

theorem fromCents_toCents:
  assumes dp: "2 \<le> DECIMAL_PLACES cfg" and cur: "isValidCurrencyCode c"
  shows "(wellFormedNumber n \<and> Number_isInteger n \<longrightarrow>
            (\<exists>m. fromCents cfg n c = Inr m \<and> toCents m = n))
       \<and> (\<not> Number_isInteger n \<or> \<not> js_isFinite n \<longrightarrow>
            fromCents cfg n c = Inl (Error ''Cents must be an integer''))"
proof -
  have bad: "fromCents cfg n c = Inl (Error ''Cents must be an integer'')"
    if "\<not> Number_isInteger n \<or> \<not> js_isFinite n"
    using that cur by (simp add: fromCents_def validateCurrencyCode_def)
  have good: "\<exists>m. fromCents cfg n c = Inr m \<and> toCents m = n"
    if wf: "wellFormedNumber n" and int: "Number_isInteger n"
  proof (cases n)
    case NNaN
    with int show ?thesis by simp
  next
    case (Infinity b)
    with int show ?thesis by simp
  next
    case (Zero b)
    have d: "BN_dividedBy cfg (BFinite b 0 0) (BFinite False 1 2) = BFinite b 0 0"
      by simp
    have f: "fromCents cfg n c = Inr \<lparr> mvalue = \<lparr> zvalue = BFinite b 0 0 \<rparr>, currencyCode = c \<rparr>"
      using cur Money_new_finite [OF cur, of "BFinite b 0 0"]
      by (simp add: fromCents_def validateCurrencyCode_def Zero hundred_BigNumber
            del: BN_dividedBy.simps)
         (simp add: d [simplified])
    have t: "toCents \<lparr> mvalue = \<lparr> zvalue = BFinite b 0 0 \<rparr>, currencyCode = c \<rparr> = Zero b"
      by (simp add: toCents_def ZanNumber_toBigNumber_def hundred_BigNumber mkFinite_zero)
    from f t show ?thesis by (simp add: Zero)
  next
    case (Num k x)
    from BN_of_number_integer [OF wf [unfolded Num] int [unfolded Num]]
    obtain a e where bn: "BN_of_number (Num k x) = BFinite (k < 0) a e"
      and sh: "0 < a" "a mod 10 \<noteq> 0" "0 \<le> e"
      and tn: "BN_toNumber (BFinite (k < 0) a e) = Num k x"
      by blast
    from wellFormed_integer [OF wf [unfolded Num] int [unfolded Num]] have x: "0 \<le> x"
      by simp
    have fin: "Number_isInteger (Num k x)" "js_isFinite (Num k x)"
      using int Num by simp_all
    have d: "BN_dividedBy cfg (BN_of_number (Num k x)) (BN_of_number hundred)
               = BFinite (k < 0) a (e - 2)"
      unfolding bn hundred_BigNumber using sh(2,3) dp by (rule dividedBy_hundred)
    have f: "fromCents cfg n c
               = Inr \<lparr> mvalue = \<lparr> zvalue = BFinite (k < 0) a (e - 2) \<rparr>, currencyCode = c \<rparr>"
      unfolding fromCents_def Num d
      using cur fin Money_new_finite [OF cur, of "BFinite (k < 0) a (e - 2)"]
      by (simp add: validateCurrencyCode_def del: Number_isInteger.simps)
    have "BN_times (BFinite (k < 0) a (e - 2)) (BFinite False 1 2) = BFinite (k < 0) a e"
      using times_hundred [OF sh(2), of "k < 0" "e - 2"] by simp
    then have t: "toCents \<lparr> mvalue = \<lparr> zvalue = BFinite (k < 0) a (e - 2) \<rparr>, currencyCode = c \<rparr>
                    = Num k x"
      unfolding toCents_def ZanNumber_toBigNumber_def hundred_BigNumber
      using tn x by (simp del: BN_times.simps BN_toNumber.simps)
    from f t show ?thesis by (simp add: Num)
  qed
  from bad good show ?thesis by blast
qed


theorem fromCents_toCents_witness:
  "2 \<le> DECIMAL_PLACES defaultConfig \<and> isValidCurrencyCode ''USD''
   \<and> wellFormedNumber (Num 5025 1) \<and> Number_isInteger (Num 5025 1)
   \<and> fromCents defaultConfig (Num 5025 1) ''USD'' = Inr usd100_5
   \<and> toCents usd100_5 = Num 5025 1
   \<and> \<not> Number_isInteger (Num 201 (- 1))
   \<and> fromCents defaultConfig (Num 201 (- 1)) ''USD'' = Inl (Error ''Cents must be an integer'')"
proof -
  have dp: "2 \<le> DECIMAL_PLACES defaultConfig"
    by (simp add: defaultConfig_def)
  have wf: "wellFormedNumber (Num 5025 1)"
    by (simp add: num_eval)
  have int: "Number_isInteger (Num 5025 1)"
    by simp
  have ni: "\<not> Number_isInteger (Num 201 (- 1))"
    by simp
  have b: "BN_of_number (Num 5025 1) = BFinite False 1005 1"
    by (simp add: mkFinite_def stripZeros.simps)
  have d: "BN_dividedBy defaultConfig (BFinite False 1005 1) (BFinite False 1 2)
             = BFinite False 1005 (- 1)"
    by (simp add: defaultConfig_def mkFinite_def stripZeros.simps)
  have f: "fromCents defaultConfig (Num 5025 1) ''USD'' = Inr usd100_5"
    unfolding fromCents_def b hundred_BigNumber d usd100_5_def
    using valid_USD Money_new_finite [OF valid_USD, of "BFinite False 1005 (- 1)"]
    by (simp add: validateCurrencyCode_def)
  from fromCents_toCents [OF dp valid_USD, of "Num 5025 1"] wf int f
  have t: "toCents usd100_5 = Num 5025 1"
    by auto
  from fromCents_toCents [OF dp valid_USD, of "Num 201 (- 1)"] ni
  have e: "fromCents defaultConfig (Num 201 (- 1)) ''USD'' = Inl (Error ''Cents must be an integer'')"
    by blast
  from dp valid_USD wf int f t ni e show ?thesis
    by blast
qed

text \<open>
  Claim C8 as stated fails when \<^verbatim>\<open>DECIMAL_PLACES\<close> is below 2: with one decimal place
  \<^verbatim>\<open>fromCents(12345)\<close> is 123.5 (the division by 100 rounds 123.45 half up), and its
  \<^verbatim>\<open>toCents\<close> is 12350.
\<close>

theorem fromCents_toCents_one_decimal_place:
  "wellFormedNumber (Num 12345 0) \<and> Number_isInteger (Num 12345 0)
   \<and> fromCents onePlaceConfig (Num 12345 0) ''USD'' = Inr usd123_5
   \<and> toCents usd123_5 = Num 6175 1
   \<and> Num 6175 1 \<noteq> Num 12345 0"
proof -
  have wf: "wellFormedNumber (Num 12345 0)"
    by (simp add: num_eval)
  have int: "Number_isInteger (Num 12345 0)"
    by simp
  have b: "BN_of_number (Num 12345 0) = BFinite False 12345 0"
    by (simp add: mkFinite_def stripZeros.simps)
  have d: "BN_dividedBy onePlaceConfig (BFinite False 12345 0) (BFinite False 1 2)
             = BFinite False 1235 (- 1)"
    by (simp add: onePlaceConfig_def mkFinite_def stripZeros.simps)
  have f: "fromCents onePlaceConfig (Num 12345 0) ''USD'' = Inr usd123_5"
    unfolding fromCents_def b hundred_BigNumber d usd123_5_def
    using valid_USD Money_new_finite [OF valid_USD, of "BFinite False 1235 (- 1)"]
    by (simp add: validateCurrencyCode_def)
  have m: "BN_times (BFinite False 1235 (- 1)) (BFinite False 1 2) = BFinite False 1235 1"
    by (simp add: mkFinite_def stripZeros.simps)
  have n: "BN_toNumber (BFinite False 1235 1) = Num 6175 1"
    by (simp add: num_eval)
  have t: "toCents usd123_5 = Num 6175 1"
    unfolding toCents_def ZanNumber_toBigNumber_def hundred_BigNumber usd123_5_def
    using m n by (simp del: BN_times.simps BN_toNumber.simps)
  from wf int f t show ?thesis
    by simp
qed

end
